theory Spec2Isabelle
  imports Main "HOL-Library.Word" "HOL-Library.Sublist"
begin

unbundle bit_operations_syntax

section \<open>Result codes and failures\<close>

text \<open>
  The \<open>isc_result_t\<close> codes that \<open>qp-zonedb.c\<close> returns or tests. A failed
  \<open>REQUIRE\<close> or \<open>INSIST\<close> aborts the process; the model returns it as the
  left summand of a sum type.
\<close>

datatype isc_result =
    ISC_R_SUCCESS | ISC_R_NOTFOUND | ISC_R_NOMORE | ISC_R_EXISTS | ISC_R_NOSPACE
  | ISC_R_FAILURE
  | DNS_R_CONTINUE | DNS_R_PARTIALMATCH | DNS_R_NEWORIGIN | DNS_R_UNCHANGED
  | DNS_R_DELEGATION | DNS_R_DNAME | DNS_R_CNAME | DNS_R_GLUE | DNS_R_ZONECUT
  | DNS_R_NXDOMAIN | DNS_R_NXRRSET | DNS_R_EMPTYNAME | DNS_R_EMPTYWILD | DNS_R_BADDB
  | DNS_R_NOTZONETOP | DNS_R_INVALIDNS | DNS_R_INVALIDNSEC3

datatype failure = REQUIRE_failed | INSIST_failed

section \<open>Record types and type pairs\<close>

type_synonym rdatatype = "16 word"
type_synonym typepair = "32 word"

text \<open>
  The \<open>dns_rdatatype_*\<close> enumeration is declared in a generated header that is not
  part of the sources at hand; the values are the RR TYPE numbers of the DNS protocol.
\<close>

definition dns_rdatatype_a :: rdatatype where "dns_rdatatype_a = 1"
definition dns_rdatatype_ns :: rdatatype where "dns_rdatatype_ns = 2"
definition dns_rdatatype_cname :: rdatatype where "dns_rdatatype_cname = 5"
definition dns_rdatatype_soa :: rdatatype where "dns_rdatatype_soa = 6"
definition dns_rdatatype_key :: rdatatype where "dns_rdatatype_key = 25"
definition dns_rdatatype_aaaa :: rdatatype where "dns_rdatatype_aaaa = 28"
definition dns_rdatatype_dname :: rdatatype where "dns_rdatatype_dname = 39"
definition dns_rdatatype_ds :: rdatatype where "dns_rdatatype_ds = 43"
definition dns_rdatatype_rrsig :: rdatatype where "dns_rdatatype_rrsig = 46"
definition dns_rdatatype_nsec :: rdatatype where "dns_rdatatype_nsec = 47"
definition dns_rdatatype_nsec3 :: rdatatype where "dns_rdatatype_nsec3 = 50"
definition dns_rdatatype_any :: rdatatype where "dns_rdatatype_any = 255"

text \<open>
  Modelled from the spec: the macros \<open>DNS_TYPEPAIR_VALUE\<close> and \<open>DNS_SIGTYPE\<close> are
  declared outside the sources at hand. A type pair is the 32-bit value holding
  \<open>(rrtype, covers)\<close>: the base type in the low 16 bits, the covered type in the
  high 16 bits; the pair of an RRSIG set has base type RRSIG and names the covered type.
\<close>

definition DNS_TYPEPAIR_VALUE :: "rdatatype \<Rightarrow> rdatatype \<Rightarrow> typepair" where
  "DNS_TYPEPAIR_VALUE base ext = push_bit 16 (ucast ext) OR ucast base"

definition DNS_SIGTYPE :: "rdatatype \<Rightarrow> typepair" where
  "DNS_SIGTYPE t = DNS_TYPEPAIR_VALUE dns_rdatatype_rrsig t"

text \<open>
  Modelled from the spec: \<open>dns_rdatatype_atparent\<close> is declared outside the sources at
  hand; the parent-side type of a zone cut is DS.
\<close>

definition dns_rdatatype_atparent :: "rdatatype \<Rightarrow> bool" where
  "dns_rdatatype_atparent t = (t = dns_rdatatype_ds)"

section \<open>Slab headers, nodes, versions\<close>

text \<open>
  The attribute word of a header is a bit set; the bit values are declared outside
  the sources at hand, so the model keeps the set of attributes that
  \<open>qp-zonedb.c\<close> tests or sets.
\<close>

datatype slabheaderattr = NONEXISTENT_attr | IGNORE_attr | RESIGN_attr | ANCIENT_attr

text \<open>
  A rdataset as the glue cache and the message hold it: its type, whether it is
  marked \<open>DNS_RDATASETATTR_REQUIRED\<close>, and its record data.
\<close>

record glue_rdataset =
  gr_type :: rdatatype
  gr_required :: bool
  gr_rdata :: "8 word list"

type_synonym dns_name = "string list"

text \<open>
  One element of a glue list (\<open>dns_glue_t\<close>): the owner name and four rdatasets,
  each either associated (\<open>Some\<close>) or not.
\<close>

record dns_glue =
  gluename :: dns_name
  rdataset_a :: "glue_rdataset option"
  sigrdataset_a :: "glue_rdataset option"
  rdataset_aaaa :: "glue_rdataset option"
  sigrdataset_aaaa :: "glue_rdataset option"

text \<open>
  A pointer to a glue list, as \<open>header->glue_list\<close> holds it: the special value
  \<open>(void *)-1\<close> (cached: the zone holds no glue), or the list it points to, linked
  by \<open>next\<close>; the empty list is the \<open>NULL\<close> pointer (nothing cached).
\<close>

datatype glue_ptr = Glue_minus1 | Glue_ptr "dns_glue list"

definition Glue_NULL :: glue_ptr where
  "Glue_NULL = Glue_ptr []"

text \<open>
  A slab header. The pointers \<open>next\<close> and \<open>down\<close> are not fields: a node holds its
  headers as a list (the \<open>next\<close> chain) of lists (each top header followed by its
  \<open>down\<close> chain, newest first). \<open>hnode\<close> is the pointer to the owning node,
  \<open>heap\<close> the bucket whose resign heap holds the header (\<open>None\<close>: \<open>NULL\<close>),
  \<open>link_linked\<close> whether the header is linked on a version's \<open>resigned_list\<close>, and
  \<open>raw\<close> the slab that follows the header in memory, as the list of its rdata.
\<close>

record slabheader =
  htype :: typepair
  hserial :: "32 word"
  attributes :: "slabheaderattr set"
  ttl :: "32 word"
  trust :: nat
  hcount :: nat
  hnode :: nat
  heap_index :: nat
  heap :: "nat option"
  resign :: "32 word"
  resign_lsb :: "1 word"
  link_linked :: bool
  glue_list :: glue_ptr
  raw :: "8 word list list"


definition NONEXISTENT :: "slabheader \<Rightarrow> bool" where
  "NONEXISTENT header = (NONEXISTENT_attr \<in> attributes header)"

definition IGNORE :: "slabheader \<Rightarrow> bool" where
  "IGNORE header = (IGNORE_attr \<in> attributes header)"

definition RESIGN :: "slabheader \<Rightarrow> bool" where
  "RESIGN header = (RESIGN_attr \<in> attributes header)"


datatype nsec_kind = DNS_DB_NSEC_NORMAL | DNS_DB_NSEC_HAS_NSEC | DNS_DB_NSEC_NSEC
  | DNS_DB_NSEC_NSEC3

record rbtnode =
  name :: dns_name
  data :: "slabheader list list"
  wild :: bool
  find_callback :: bool
  nsec :: nsec_kind
  locknum :: nat
  hashval :: nat

record qpdb_version =
  vqpdb :: nat
  vserial :: "32 word"
  secure :: bool
  havensec3 :: bool
  vhash :: "8 word"
  vflags :: "8 word"
  viterations :: "16 word"
  vsalt :: "8 word list"
  vsalt_length :: nat

text \<open>
  The database. Nodes live in a store addressed by natural numbers (the node
  pointers); \<open>next_node\<close> is the first address not yet allocated. Each of the three
  tries is the list of its (name, node pointer) entries in the order the trie iterates
  them. \<open>heaps\<close> holds, for each lock bucket, the headers of its resign heap with
  the heap's element 1 first.
\<close>

record qpdb =
  dbid :: nat
  origin :: dns_name
  rdclass :: "16 word"
  is_cache :: bool
  is_stub :: bool
  nodes :: "nat \<Rightarrow> rbtnode"
  next_node :: nat
  tree :: "(dns_name \<times> nat) list"
  nsec_tree :: "(dns_name \<times> nat) list"
  nsec3_tree :: "(dns_name \<times> nat) list"
  origin_node :: nat
  node_lock_count :: nat
  heaps :: "slabheader list list"
  sooner :: "slabheader \<Rightarrow> slabheader \<Rightarrow> bool"
  current_version :: qpdb_version
  have_gluecachestats :: bool

section \<open>getnsec3parameters\<close>

text \<open>
  The caller's output locations: \<open>None\<close> is a \<open>NULL\<close> pointer, \<open>Some v\<close> a location
  that holds \<open>v\<close>.
\<close>

record nsec3_out =
  out_hash :: "8 word option"
  out_flags :: "8 word option"
  out_iterations :: "16 word option"
  out_salt :: "8 word list option"
  out_salt_length :: "nat option"

definition set_if_not_null :: "'a option \<Rightarrow> 'a \<Rightarrow> 'a option" where
  "set_if_not_null p v = (case p of None \<Rightarrow> None | Some _ \<Rightarrow> Some v)"

definition memmove :: "8 word list \<Rightarrow> 8 word list \<Rightarrow> nat \<Rightarrow> 8 word list" where
  "memmove dst src n = take n src @ drop n dst"

definition getnsec3parameters ::
  "qpdb \<Rightarrow> qpdb_version option \<Rightarrow> nsec3_out \<Rightarrow> failure + (isc_result \<times> nsec3_out)" where
  "getnsec3parameters db version out =
     (if version \<noteq> None \<and> map_option vqpdb version \<noteq> Some (dbid db) then Inl INSIST_failed
      else
        let rbtversion = (case version of None \<Rightarrow> current_version db | Some v \<Rightarrow> v) in
        if havensec3 rbtversion then
          (case (out_salt out, out_salt_length out) of
             (Some buf, Some len) \<Rightarrow>
               if len \<ge> vsalt_length rbtversion then
                 Inr (ISC_R_SUCCESS,
                   \<lparr> out_hash = set_if_not_null (out_hash out) (vhash rbtversion),
                     out_flags = set_if_not_null (out_flags out) (vflags rbtversion),
                     out_iterations = set_if_not_null (out_iterations out) (viterations rbtversion),
                     out_salt = Some (memmove buf (vsalt rbtversion) (vsalt_length rbtversion)),
                     out_salt_length = Some (vsalt_length rbtversion) \<rparr>)
               else Inl REQUIRE_failed
           | _ \<Rightarrow>
               Inr (ISC_R_SUCCESS,
                 \<lparr> out_hash = set_if_not_null (out_hash out) (vhash rbtversion),
                   out_flags = set_if_not_null (out_flags out) (vflags rbtversion),
                   out_iterations = set_if_not_null (out_iterations out) (viterations rbtversion),
                   out_salt = out_salt out,
                   out_salt_length = set_if_not_null (out_salt_length out) (vsalt_length rbtversion) \<rparr>))
        else Inr (ISC_R_NOTFOUND, out))"

section \<open>The header chain of a node\<close>

text \<open>
  The inner loop that \<open>check_zonecut\<close>, \<open>find_closest_nsec\<close>, \<open>zone_find\<close> and
  \<open>zone_findrdataset\<close> all run on a top header: walk \<open>down\<close> to the first header
  with \<open>serial <= search serial\<close> that is not ignored; the result is \<open>NULL\<close>
  when that header says the rdataset does not exist, or when the chain ends.
\<close>

fun active_version :: "32 word \<Rightarrow> slabheader list \<Rightarrow> slabheader option" where
  "active_version serial [] = None"
| "active_version serial (header # down) =
     (if hserial header \<le> serial \<and> \<not> IGNORE header
      then (if NONEXISTENT header then None else Some header)
      else active_version serial down)"

text \<open>
  The invariants of a header chain: every header of a \<open>down\<close> chain has the type of
  its top header, and each type heads at most one \<open>down\<close> chain of the node.
\<close>

definition stack_type :: "slabheader list \<Rightarrow> typepair option" where
  "stack_type stack = (case stack of [] \<Rightarrow> None | h # _ \<Rightarrow> Some (htype h))"

definition stack_ok :: "slabheader list \<Rightarrow> bool" where
  "stack_ok stack = (stack \<noteq> [] \<and> (\<forall>h \<in> set stack. stack_type stack = Some (htype h)))"

definition chain_ok :: "slabheader list list \<Rightarrow> bool" where
  "chain_ok chain = ((\<forall>stack \<in> set chain. stack_ok stack) \<and> distinct (map stack_type chain))"

text \<open>
  The find primitive in the words of the specification: walk the \<open>next\<close> chain to the
  header of the matching type, walk \<open>down\<close> to the first header with
  \<open>serial <= search_serial\<close> and not \<open>IGNORE\<close>; if that header is
  \<open>NONEXISTENT\<close>, the type is absent.
\<close>

definition find_at_serial :: "32 word \<Rightarrow> typepair \<Rightarrow> slabheader list list \<Rightarrow> slabheader option" where
  "find_at_serial search_serial t chain =
     (case filter (\<lambda>stack. stack_type stack = Some t) chain of
        [] \<Rightarrow> None
      | stack # _ \<Rightarrow>
          (case find (\<lambda>h. hserial h \<le> search_serial \<and> \<not> IGNORE h) stack of
             None \<Rightarrow> None
           | Some h \<Rightarrow> if NONEXISTENT h then None else Some h))"

section \<open>zone_findrdataset\<close>

text \<open>
  The outer loop of \<open>zone_findrdataset\<close> over the \<open>next\<close> chain, with the loop
  variables \<open>found\<close> and \<open>foundsig\<close>; a \<open>break\<close> returns them at once.
\<close>

fun findrdataset_scan ::
  "32 word \<Rightarrow> typepair \<Rightarrow> typepair \<Rightarrow> slabheader list list \<Rightarrow>
   slabheader option \<Rightarrow> slabheader option \<Rightarrow> slabheader option \<times> slabheader option" where
  "findrdataset_scan serial matchtype sigmatchtype [] found foundsig = (found, foundsig)"
| "findrdataset_scan serial matchtype sigmatchtype (stack # header_next) found foundsig =
     (case active_version serial stack of
        None \<Rightarrow> findrdataset_scan serial matchtype sigmatchtype header_next found foundsig
      | Some header \<Rightarrow>
          if htype header = matchtype then
            (if foundsig \<noteq> None then (Some header, foundsig)
             else findrdataset_scan serial matchtype sigmatchtype header_next (Some header) foundsig)
          else if htype header = sigmatchtype then
            (if found \<noteq> None then (found, Some header)
             else findrdataset_scan serial matchtype sigmatchtype header_next found (Some header))
          else findrdataset_scan serial matchtype sigmatchtype header_next found foundsig)"

text \<open>
  The result is the code returned and what was bound into \<open>rdataset\<close> and
  \<open>sigrdataset\<close> (\<open>None\<close>: left unbound).
\<close>

definition zone_findrdataset ::
  "qpdb \<Rightarrow> nat \<Rightarrow> qpdb_version option \<Rightarrow> rdatatype \<Rightarrow> rdatatype \<Rightarrow>
   failure + (isc_result \<times> slabheader option \<times> slabheader option)" where
  "zone_findrdataset db node version type covers =
     (if type = dns_rdatatype_any then Inl REQUIRE_failed
      else if version \<noteq> None \<and> map_option vqpdb version \<noteq> Some (dbid db) then Inl INSIST_failed
      else
        let rbtversion = (case version of None \<Rightarrow> current_version db | Some v \<Rightarrow> v);
            serial = vserial rbtversion;
            matchtype = DNS_TYPEPAIR_VALUE type covers;
            sigmatchtype = (if covers = 0 then DNS_SIGTYPE type else 0);
            (found, foundsig) =
              findrdataset_scan serial matchtype sigmatchtype (data (nodes db node)) None None
        in if found = None then Inr (ISC_R_NOTFOUND, None, None)
           else Inr (ISC_R_SUCCESS, found, foundsig))"

section \<open>Resign heaps: setsigningtime and getsigningtime\<close>

text \<open>
  The heap implementation (\<open>isc_heap_insert\<close>, \<open>isc_heap_delete\<close>,
  \<open>isc_heap_increased\<close>, \<open>isc_heap_decreased\<close>) is outside the sources at hand. The
  model records each call that \<open>qp-zonedb.c\<close> makes on a resign heap, with the bucket
  of the heap and the index or header passed.
\<close>

datatype heap_call =
    Heap_insert nat slabheader
  | Heap_delete nat nat
  | Heap_increased nat nat
  | Heap_decreased nat nat

definition QPDB_HEADERNODE :: "qpdb \<Rightarrow> slabheader \<Rightarrow> rbtnode" where
  "QPDB_HEADERNODE db header = nodes db (hnode header)"

text \<open>
  Modelled from the spec: \<open>isc_heap_insert\<close> is outside the sources at hand. It puts
  the element behind the last one and moves it up while it is ahead of its parent, the
  element at half its index, in the order of the heap; the index callback of the heap
  then stores the index the element ends at in its \<open>heap_index\<close>. The resign heaps are
  ordered by \<open>sooner\<close>. \<open>float_up\<close> gives that index, for the elements of the heap
  before the call listed from element 1.
\<close>

function float_up ::
  "(slabheader \<Rightarrow> slabheader \<Rightarrow> bool) \<Rightarrow> slabheader list \<Rightarrow> slabheader \<Rightarrow> nat \<Rightarrow> nat" where
  "float_up cmp elems elt i =
     (if 1 < i \<and> cmp elt (elems ! (i div 2 - 1)) then float_up cmp elems elt (i div 2) else i)"
  by pat_completeness auto

termination
  by (relation "measure (\<lambda>(cmp, elems, elt, i). i)") auto

declare float_up.simps [simp del]

definition dns__qpzone_resigninsert ::
  "qpdb \<Rightarrow> nat \<Rightarrow> slabheader \<Rightarrow> failure + (slabheader \<times> heap_call list)" where
  "dns__qpzone_resigninsert db idx newheader =
     (if is_cache db then Inl INSIST_failed
      else if heap_index newheader \<noteq> 0 then Inl INSIST_failed
      else if link_linked newheader then Inl INSIST_failed
      else Inr (newheader\<lparr>heap_index :=
                             float_up (sooner db) (heaps db ! idx) newheader
                               (Suc (length (heaps db ! idx))),
                          heap := Some idx\<rparr>,
                [Heap_insert idx newheader]))"

text \<open>
  \<open>setsigningtime\<close>. \<open>dns_time64_from32\<close> (outside the sources at hand, it reads
  the clock) is a parameter. The result is the code returned, the header as the call
  leaves it, and the heap calls made, in order.
\<close>

definition setsigningtime ::
  "(32 word \<Rightarrow> 64 word) \<Rightarrow> qpdb \<Rightarrow> slabheader \<Rightarrow> 32 word \<Rightarrow>
   failure + (isc_result \<times> slabheader \<times> heap_call list)" where
  "setsigningtime dns_time64_from32 db header0 resign_time =
     (if is_cache db then Inl REQUIRE_failed
      else
        let oldheader = header0;
            header =
              (if resign_time \<noteq> 0
               then header0\<lparr>resign := ucast (signed_drop_bit 1 (dns_time64_from32 resign_time)),
                            resign_lsb := ucast (resign_time AND 1)\<rparr>
               else header0);
            bucket = locknum (QPDB_HEADERNODE db header)
        in
          if heap_index header \<noteq> 0 then
            (if \<not> RESIGN header then Inl INSIST_failed
             else if resign_time = 0 then
               Inr (ISC_R_SUCCESS, header\<lparr>heap_index := 0, heap := None\<rparr>,
                    [Heap_delete bucket (heap_index header)])
             else if sooner db header oldheader then
               Inr (ISC_R_SUCCESS, header, [Heap_increased bucket (heap_index header)])
             else if sooner db oldheader header then
               Inr (ISC_R_SUCCESS, header, [Heap_decreased bucket (heap_index header)])
             else Inr (ISC_R_SUCCESS, header, []))
          else if resign_time \<noteq> 0 then
            (case dns__qpzone_resigninsert db bucket
                    (header\<lparr>attributes := insert RESIGN_attr (attributes header)\<rparr>) of
               Inl e \<Rightarrow> Inl e
             | Inr (header', calls) \<Rightarrow> Inr (ISC_R_SUCCESS, header', calls))
          else Inr (ISC_R_SUCCESS, header, []))"

text \<open>
  Modelled from the spec: \<open>isc_heap_element\<close> is outside the sources at hand; a heap
  holds its elements at the indices 1 to its size, the root of the min-heap at index 1,
  and an index past the last gives \<open>NULL\<close>.
\<close>

definition isc_heap_element :: "slabheader list \<Rightarrow> nat \<Rightarrow> slabheader option" where
  "isc_heap_element h idx = (if 1 \<le> idx \<and> idx \<le> length h then Some (h ! (idx - 1)) else None)"

text \<open>
  The loop of \<open>getsigningtime\<close> over the buckets, from bucket \<open>i\<close> on; \<open>best\<close> is
  the pair (\<open>header\<close>, \<open>locknum\<close>) retained so far.
\<close>

fun getsigningtime_scan ::
  "(slabheader \<Rightarrow> slabheader \<Rightarrow> bool) \<Rightarrow> slabheader list list \<Rightarrow> nat \<Rightarrow>
   (slabheader \<times> nat) option \<Rightarrow> (slabheader \<times> nat) option" where
  "getsigningtime_scan snr [] i best = best"
| "getsigningtime_scan snr (h # hs) i best =
     (case isc_heap_element h 1 of
        None \<Rightarrow> getsigningtime_scan snr hs (i + 1) best
      | Some this \<Rightarrow>
          (case best of
             None \<Rightarrow> getsigningtime_scan snr hs (i + 1) (Some (this, i))
           | Some (header, lnum) \<Rightarrow>
               if snr this header then getsigningtime_scan snr hs (i + 1) (Some (this, i))
               else getsigningtime_scan snr hs (i + 1) best))"

text \<open>
  The result is the code returned, the header bound into \<open>rdataset\<close> and the content
  of \<open>foundname\<close> (\<open>None\<close>: a \<open>NULL\<close> pointer).
\<close>

definition getsigningtime ::
  "qpdb \<Rightarrow> dns_name option \<Rightarrow> isc_result \<times> slabheader option \<times> dns_name option" where
  "getsigningtime db foundname =
     (case getsigningtime_scan (sooner db) (take (node_lock_count db) (heaps db)) 0 None of
        None \<Rightarrow> (ISC_R_NOTFOUND, None, foundname)
      | Some (header, lnum) \<Rightarrow>
          (ISC_R_SUCCESS, Some header,
           (case foundname of None \<Rightarrow> None | Some _ \<Rightarrow> Some (name (QPDB_HEADERNODE db header)))))"

text \<open>
  What the resign heaps and the order \<open>sooner\<close> are taken to guarantee: no element of a
  heap is sooner than its element 1, and \<open>sooner\<close> is a strict weak order. The header
  at element 1 of bucket \<open>k\<close> is a first minimum when it is sooner than element 1 of
  every non-empty bucket before \<open>k\<close>.
\<close>

definition heap_top_first :: "(slabheader \<Rightarrow> slabheader \<Rightarrow> bool) \<Rightarrow> slabheader list \<Rightarrow> bool" where
  "heap_top_first snr h = (\<forall>x \<in> set h. \<not> snr x (hd h))"

definition sooner_order :: "(slabheader \<Rightarrow> slabheader \<Rightarrow> bool) \<Rightarrow> bool" where
  "sooner_order snr =
     ((\<forall>a. \<not> snr a a) \<and>
      (\<forall>a b c. snr a b \<longrightarrow> snr b c \<longrightarrow> snr a c) \<and>
      (\<forall>a b c. \<not> snr a b \<longrightarrow> \<not> snr b c \<longrightarrow> \<not> snr a c))"

definition first_min ::
  "(slabheader \<Rightarrow> slabheader \<Rightarrow> bool) \<Rightarrow> slabheader list list \<Rightarrow> slabheader \<Rightarrow> nat \<Rightarrow> bool" where
  "first_min snr hs w k =
     (k < length hs \<and> hs ! k \<noteq> [] \<and> w = hd (hs ! k) \<and>
      (\<forall>j < k. hs ! j \<noteq> [] \<longrightarrow> snr w (hd (hs ! j))))"

section \<open>The search state\<close>

text \<open>
  The bits of \<open>options\<close> that \<open>qp-zonedb.c\<close> tests; the option word is the set of
  the bits that are on.
\<close>

datatype dbfind_option = DNS_DBFIND_GLUEOK | DNS_DBFIND_NOWILD | DNS_DBFIND_FORCENSEC3

text \<open>
  Modelled from the spec: the trie and its iterator are outside the sources at hand. An
  iterator is a cursor into the entries of a trie in canonical order: \<open>it_pos\<close> is the
  index of the entry it stands on (\<open>None\<close>: on no entry). Moving onto the entry at
  index \<open>i\<close> reports \<open>DNS_R_NEWORIGIN\<close> instead of \<open>ISC_R_SUCCESS\<close> where
  \<open>it_neworigin i\<close> holds (the move crossed the zone origin).
\<close>

record qpiter =
  it_entries :: "(dns_name \<times> nat) list"
  it_pos :: "nat option"
  it_neworigin :: "nat \<Rightarrow> bool"

text \<open>
  \<open>qpdb_search_t\<close>: the version searched and its serial, the options, the chain of
  ancestor nodes from the lookup (closest last), the iterator, and what
  \<open>check_zonecut\<close> records. The reference counts of nodes and all locks are left out.
\<close>

record qpdb_search =
  s_version :: qpdb_version
  s_serial :: "32 word"
  s_options :: "dbfind_option set"
  s_chain :: "nat list"
  s_iter :: qpiter
  s_wild :: bool
  zonecut :: "nat option"
  zonecut_header :: "slabheader option"
  zonecut_sigheader :: "slabheader option"
  zonecut_name :: dns_name
  copy_name :: bool
  need_cleanup :: bool

section \<open>check_zonecut and setup_delegation\<close>

text \<open>
  The loop of \<open>check_zonecut\<close> over the \<open>next\<close> chain, with the loop variables
  \<open>dname_header\<close>, \<open>sigdname_header\<close> and \<open>ns_header\<close>; \<open>not_top\<close> is
  \<open>node != onode || IS_STUB(qpdb)\<close>.
\<close>

fun check_zonecut_scan ::
  "32 word \<Rightarrow> bool \<Rightarrow> slabheader list list \<Rightarrow>
   slabheader option \<times> slabheader option \<times> slabheader option \<Rightarrow>
   slabheader option \<times> slabheader option \<times> slabheader option" where
  "check_zonecut_scan serial not_top [] acc = acc"
| "check_zonecut_scan serial not_top ([] # header_next) acc =
     check_zonecut_scan serial not_top header_next acc"
| "check_zonecut_scan serial not_top ((tophdr # down) # header_next)
       (dname_header, sigdname_header, ns_header) =
     (if htype tophdr = ucast dns_rdatatype_ns \<or> htype tophdr = ucast dns_rdatatype_dname \<or>
         htype tophdr = DNS_SIGTYPE dns_rdatatype_dname
      then
        (case active_version serial (tophdr # down) of
           None \<Rightarrow>
             check_zonecut_scan serial not_top header_next
               (dname_header, sigdname_header, ns_header)
         | Some header \<Rightarrow>
             if htype header = ucast dns_rdatatype_dname then
               check_zonecut_scan serial not_top header_next
                 (Some header, sigdname_header, ns_header)
             else if htype header = DNS_SIGTYPE dns_rdatatype_dname then
               check_zonecut_scan serial not_top header_next
                 (dname_header, Some header, ns_header)
             else if not_top then
               check_zonecut_scan serial not_top header_next
                 (dname_header, sigdname_header, Some header)
             else
               check_zonecut_scan serial not_top header_next
                 (dname_header, sigdname_header, ns_header))
      else check_zonecut_scan serial not_top header_next
             (dname_header, sigdname_header, ns_header))"

definition check_zonecut :: "qpdb \<Rightarrow> nat \<Rightarrow> qpdb_search \<Rightarrow> isc_result \<times> qpdb_search" where
  "check_zonecut db node search =
     (if zonecut search \<noteq> None then (DNS_R_CONTINUE, search)
      else
        let onode = origin_node db;
            (dname_header, sigdname_header, ns_header) =
               check_zonecut_scan (s_serial search) (node \<noteq> onode \<or> is_stub db)
                 (data (nodes db node)) (None, None, None);
            (found, search1) =
               (if \<not> is_stub db \<and> ns_header \<noteq> None
                  then (ns_header, search\<lparr>zonecut_sigheader := None\<rparr>)
                else if dname_header \<noteq> None
                  then (dname_header, search\<lparr>zonecut_sigheader := sigdname_header\<rparr>)
                else if ns_header \<noteq> None
                  then (ns_header, search\<lparr>zonecut_sigheader := None\<rparr>)
                else (None, search))
        in
          if found \<noteq> None then
            (let search2 = search1\<lparr>zonecut := Some node, zonecut_header := found,
                                   need_cleanup := True, s_wild := False\<rparr>
             in if DNS_DBFIND_GLUEOK \<notin> s_options search then (DNS_R_PARTIALMATCH, search2)
                else (DNS_R_CONTINUE,
                      search2\<lparr>zonecut_name := name (nodes db node), copy_name := True\<rparr>))
          else if wild (nodes db node) \<and> DNS_DBFIND_NOWILD \<notin> s_options search
            then (DNS_R_CONTINUE, search1\<lparr>s_wild := True\<rparr>)
          else (DNS_R_CONTINUE, search1))"

text \<open>
  What a find leaves in the caller's locations: \<open>*nodep\<close>, \<open>foundname\<close> (and its
  wildcard attribute), \<open>rdataset\<close> and \<open>sigrdataset\<close>; \<open>None\<close> is a location not
  written. \<open>find_args\<close> says which of the pointers the caller passed are not
  \<open>NULL\<close>.
\<close>

record find_out =
  out_node :: "nat option"
  out_foundname :: "dns_name option"
  out_wildcard :: bool
  out_rdataset :: "slabheader option"
  out_sigrdataset :: "slabheader option"

record find_args =
  nodep_given :: bool
  foundname_given :: bool
  rdataset_given :: bool
  sigrdataset_given :: bool

text \<open>
  Modelled from the spec: \<open>dns__qpdb_bindrdataset\<close> is outside the sources at hand; it
  binds the header into the rdataset, and does nothing for a \<open>NULL\<close> rdataset.
\<close>

definition bindrdataset :: "bool \<Rightarrow> slabheader \<Rightarrow> slabheader option \<Rightarrow> slabheader option" where
  "bindrdataset given header old = (if given then Some header else old)"

definition setup_delegation ::
  "qpdb_search \<Rightarrow> find_args \<Rightarrow> find_out \<Rightarrow> failure + (isc_result \<times> find_out \<times> qpdb_search)" where
  "setup_delegation search args out =
     (case (zonecut search, zonecut_header search) of
        (Some node, Some zheader) \<Rightarrow>
          let out1 = (if foundname_given args \<and> copy_name search
                      then out\<lparr>out_foundname := Some (zonecut_name search)\<rparr> else out);
              out2 = (if nodep_given args then out1\<lparr>out_node := Some node\<rparr> else out1);
              search1 = (if nodep_given args then search\<lparr>need_cleanup := False\<rparr> else search);
              out3 = (if rdataset_given args
                      then out2\<lparr>out_rdataset := Some zheader,
                                out_sigrdataset :=
                                  (case zonecut_sigheader search of
                                     None \<Rightarrow> out_sigrdataset out2
                                   | Some zsig \<Rightarrow>
                                       bindrdataset (sigrdataset_given args) zsig
                                         (out_sigrdataset out2))\<rparr>
                      else out2)
          in if htype zheader = ucast dns_rdatatype_dname then Inr (DNS_R_DNAME, out3, search1)
             else Inr (DNS_R_DELEGATION, out3, search1)
      | _ \<Rightarrow> Inl REQUIRE_failed)"

section \<open>zone_find, from the label found\<close>

text \<open>
  Modelled from the spec: \<open>dns_rdata_tostruct\<close> is outside the sources at hand. The
  rdata of an NSEC3 record starts with the hash algorithm, the flags, the iterations
  (two octets, high first), the salt length and the salt.
\<close>

definition dns_rdata_tostruct_nsec3 ::
  "8 word list \<Rightarrow> (8 word \<times> 8 word \<times> 16 word \<times> 8 word list) option" where
  "dns_rdata_tostruct_nsec3 r =
     (case r of
        hash # flags # i1 # i0 # sl # rest \<Rightarrow>
          if unat sl \<le> length rest
          then Some (hash, flags, ucast i1 * 256 + ucast i0, take (unat sl) rest)
          else None
      | _ \<Rightarrow> None)"

text \<open>
  \<open>matchparams\<close>: the loop over the rdata of the slab, then the function.
\<close>

fun matchparams_rdata :: "qpdb_version \<Rightarrow> 8 word list list \<Rightarrow> failure + bool" where
  "matchparams_rdata v [] = Inr False"
| "matchparams_rdata v (r # rs) =
     (case dns_rdata_tostruct_nsec3 r of
        None \<Rightarrow> Inl INSIST_failed
      | Some (hash, flags, iterations, salt) \<Rightarrow>
          if hash = vhash v \<and> iterations = viterations v \<and> length salt = vsalt_length v \<and>
             salt = take (length salt) (vsalt v)
          then Inr True
          else matchparams_rdata v rs)"

definition matchparams :: "slabheader \<Rightarrow> qpdb_search \<Rightarrow> failure + bool" where
  "matchparams header search =
     (if htype header \<noteq> ucast dns_rdatatype_nsec3 then Inl REQUIRE_failed
      else matchparams_rdata (s_version search) (raw header))"

text \<open>
  The variables of \<open>zone_find\<close> that its scan of the header chain reads and writes.
\<close>

record find_scan =
  fs_search :: qpdb_search
  fs_found :: "slabheader option"
  fs_foundsig :: "slabheader option"
  fs_nsecheader :: "slabheader option"
  fs_nsecsig :: "slabheader option"
  fs_cnamesig :: "slabheader option"
  fs_sigtype :: typepair
  fs_empty_node :: bool
  fs_maybe_zonecut :: bool
  fs_at_zonecut :: bool

datatype loop_exit = Continue find_scan | Break find_scan | Goto_partial_match find_scan

text \<open>
  The body of the scan for one active header: \<open>find_header\<close> is the zone cut
  handling, \<open>find_match\<close> the rest (the check of the NSEC3 parameters and the
  matching of the types).
\<close>

definition find_match :: "rdatatype \<Rightarrow> bool \<Rightarrow> slabheader \<Rightarrow> find_scan \<Rightarrow> failure + loop_exit" where
  "find_match type cname_ok header st =
     (case (if htype header = ucast dns_rdatatype_nsec3
            then matchparams header (fs_search st) else Inr True) of
        Inl e \<Rightarrow> Inl e
      | Inr False \<Rightarrow> Inr (Goto_partial_match st)
      | Inr True \<Rightarrow>
          if htype header = ucast type \<or> type = dns_rdatatype_any \<or>
             (htype header = ucast dns_rdatatype_cname \<and> cname_ok)
          then
            (let st1 = st\<lparr>fs_found := Some header\<rparr>;
                 st2 = (if htype header = ucast dns_rdatatype_cname \<and> cname_ok
                        then (if fs_cnamesig st1 \<noteq> None
                              then st1\<lparr>fs_foundsig := fs_cnamesig st1\<rparr>
                              else st1\<lparr>fs_sigtype := DNS_SIGTYPE dns_rdatatype_cname\<rparr>)
                        else st1)
             in if \<not> fs_maybe_zonecut st2 \<and> fs_foundsig st2 \<noteq> None then Inr (Break st2)
                else Inr (Continue st2))
          else if htype header = fs_sigtype st then
            (let st1 = st\<lparr>fs_foundsig := Some header\<rparr>
             in if \<not> fs_maybe_zonecut st1 \<and> fs_found st1 \<noteq> None then Inr (Break st1)
                else Inr (Continue st1))
          else if htype header = ucast dns_rdatatype_nsec \<and>
                  \<not> havensec3 (s_version (fs_search st))
            then Inr (Continue (st\<lparr>fs_nsecheader := Some header\<rparr>))
          else if htype header = DNS_SIGTYPE dns_rdatatype_nsec \<and>
                  \<not> havensec3 (s_version (fs_search st))
            then Inr (Continue (st\<lparr>fs_nsecsig := Some header\<rparr>))
          else if cname_ok \<and> htype header = DNS_SIGTYPE dns_rdatatype_cname
            then Inr (Continue (st\<lparr>fs_cnamesig := Some header\<rparr>))
          else Inr (Continue st))"

definition find_header :: "nat \<Rightarrow> rdatatype \<Rightarrow> bool \<Rightarrow> slabheader \<Rightarrow> find_scan \<Rightarrow> failure + loop_exit" where
  "find_header node type cname_ok header st0 =
     (let st = st0\<lparr>fs_empty_node := False\<rparr> in
      if fs_maybe_zonecut st \<and> htype header = ucast dns_rdatatype_ns then
        (let st1 = st\<lparr>fs_search := (fs_search st)\<lparr>zonecut := Some node,
                                                    zonecut_header := Some header,
                                                    zonecut_sigheader := None,
                                                    need_cleanup := True\<rparr>,
                        fs_maybe_zonecut := False, fs_at_zonecut := True\<rparr>
         in if DNS_DBFIND_GLUEOK \<notin> s_options (fs_search st1) \<and>
               type \<noteq> dns_rdatatype_nsec \<and> type \<noteq> dns_rdatatype_key
            then Inr (Break (st1\<lparr>fs_found := None\<rparr>))
            else if fs_found st1 \<noteq> None \<and> fs_foundsig st1 \<noteq> None then Inr (Break st1)
            else find_match type cname_ok header st1)
      else find_match type cname_ok header st)"

datatype scan_exit = Scan_end find_scan | Scan_partial_match find_scan

fun find_loop ::
  "nat \<Rightarrow> rdatatype \<Rightarrow> bool \<Rightarrow> slabheader list list \<Rightarrow> find_scan \<Rightarrow> failure + scan_exit" where
  "find_loop node type cname_ok [] st = Inr (Scan_end st)"
| "find_loop node type cname_ok (stack # header_next) st =
     (case active_version (s_serial (fs_search st)) stack of
        None \<Rightarrow> find_loop node type cname_ok header_next st
      | Some header \<Rightarrow>
          (case find_header node type cname_ok header st of
             Inl e \<Rightarrow> Inl e
           | Inr (Continue st') \<Rightarrow> find_loop node type cname_ok header_next st'
           | Inr (Break st') \<Rightarrow> Inr (Scan_end st')
           | Inr (Goto_partial_match st') \<Rightarrow> Inr (Scan_partial_match st')))"

text \<open>
  The values of \<open>maybe_zonecut\<close> and \<open>cname_ok\<close> when the scan starts, and the scan
  from the state at the label \<open>found\<close>.
\<close>

definition find_maybe_zonecut :: "qpdb \<Rightarrow> qpdb_search \<Rightarrow> nat \<Rightarrow> rdatatype \<Rightarrow> bool" where
  "find_maybe_zonecut db search node type =
     (zonecut search = None \<and> find_callback (nodes db node) \<and>
      ((node \<noteq> origin_node db \<and> \<not> dns_rdatatype_atparent type) \<or> is_stub db))"

definition find_cname_ok :: "qpdb_search \<Rightarrow> rdatatype \<Rightarrow> bool" where
  "find_cname_ok search type =
     (zonecut search = None \<and> \<not> (type = dns_rdatatype_key \<or> type = dns_rdatatype_nsec))"

definition zone_find_scan :: "qpdb \<Rightarrow> qpdb_search \<Rightarrow> nat \<Rightarrow> rdatatype \<Rightarrow> failure + scan_exit" where
  "zone_find_scan db search node type =
     find_loop node type (find_cname_ok search type) (data (nodes db node))
       \<lparr> fs_search = search, fs_found = None, fs_foundsig = None, fs_nsecheader = None,
         fs_nsecsig = None, fs_cnamesig = None, fs_sigtype = DNS_SIGTYPE type,
         fs_empty_node = True, fs_maybe_zonecut = find_maybe_zonecut db search node type,
         fs_at_zonecut = False \<rparr>"

text \<open>
  How the part of \<open>zone_find\<close> from the label \<open>found\<close> ends: with a jump to
  \<open>partial_match\<close>, with the call of \<open>find_closest_nsec\<close> (whose success becomes
  \<open>DNS_R_EMPTYWILD\<close>; the function is not part of this model), or with a result.
  \<open>is_wild\<close> is the variable \<open>wild\<close>: the node was reached as a wildcard match.
\<close>

datatype find_outcome =
    Partial_match qpdb_search
  | Closest_nsec qpdb_search
  | Finished isc_result find_out qpdb_search

definition find_result :: "nat \<Rightarrow> rdatatype \<Rightarrow> slabheader \<Rightarrow> qpdb_search \<Rightarrow> isc_result" where
  "find_result node type fnd search =
     (if ucast type \<noteq> htype fnd \<and> type \<noteq> dns_rdatatype_any \<and>
         htype fnd = ucast dns_rdatatype_cname
      then DNS_R_CNAME
      else if zonecut search \<noteq> None then
        (if zonecut search = Some node then
           (if type = dns_rdatatype_nsec \<or> type = dns_rdatatype_nsec3 \<or> type = dns_rdatatype_key
            then ISC_R_SUCCESS
            else if type = dns_rdatatype_any then DNS_R_ZONECUT
            else DNS_R_GLUE)
         else DNS_R_GLUE)
      else ISC_R_SUCCESS)"

definition zone_find_found ::
  "qpdb \<Rightarrow> qpdb_search \<Rightarrow> nat \<Rightarrow> rdatatype \<Rightarrow> bool \<Rightarrow> find_args \<Rightarrow> find_out \<Rightarrow>
   failure + find_outcome" where
  "zone_find_found db search node type is_wild args out =
     (case zone_find_scan db search node type of
        Inl e \<Rightarrow> Inl e
      | Inr (Scan_partial_match st) \<Rightarrow> Inr (Partial_match (fs_search st))
      | Inr (Scan_end st) \<Rightarrow>
          let search1 = fs_search st; version = s_version search1 in
            if fs_empty_node st \<and> \<not> is_wild then Inr (Partial_match search1)
            else
              (case fs_found st of
                 None \<Rightarrow>
                   if zonecut search1 \<noteq> None then
                     (case setup_delegation search1 args out of
                        Inl e \<Rightarrow> Inl e
                      | Inr (result, out', search') \<Rightarrow> Inr (Finished result out' search'))
                   else if secure version \<and> \<not> havensec3 version \<and>
                           (fs_nsecheader st = None \<or> fs_nsecsig st = None) then
                     (if \<not> is_wild then Inr (Finished DNS_R_BADDB out search1)
                      else Inr (Closest_nsec search1))
                   else
                     (let out1 = (if nodep_given args then out\<lparr>out_node := Some node\<rparr> else out);
                          out2 =
                            (if secure version \<and> \<not> havensec3 version then
                               (case fs_nsecheader st of
                                  None \<Rightarrow> out1
                                | Some nh \<Rightarrow>
                                    out1\<lparr>out_rdataset :=
                                           bindrdataset (rdataset_given args) nh (out_rdataset out1),
                                         out_sigrdataset :=
                                           (case fs_nsecsig st of
                                              None \<Rightarrow> out_sigrdataset out1
                                            | Some nsg \<Rightarrow>
                                                bindrdataset (sigrdataset_given args) nsg
                                                  (out_sigrdataset out1))\<rparr>)
                             else out1);
                          out3 = (if is_wild then out2\<lparr>out_wildcard := True\<rparr> else out2)
                      in Inr (Finished DNS_R_NXRRSET out3 search1))
               | Some fnd \<Rightarrow>
                   (let result = find_result node type fnd search1;
                        out1 = (if nodep_given args then out\<lparr>out_node := Some node\<rparr> else out);
                        search2 = (if nodep_given args \<and> fs_at_zonecut st
                                   then search1\<lparr>need_cleanup := False\<rparr> else search1);
                        out2 =
                          (if type \<noteq> dns_rdatatype_any then
                             out1\<lparr>out_rdataset :=
                                    bindrdataset (rdataset_given args) fnd (out_rdataset out1),
                                  out_sigrdataset :=
                                    (case fs_foundsig st of
                                       None \<Rightarrow> out_sigrdataset out1
                                     | Some fsg \<Rightarrow>
                                         bindrdataset (sigrdataset_given args) fsg
                                           (out_sigrdataset out1))\<rparr>
                           else out1);
                        out3 = (if is_wild then out2\<lparr>out_wildcard := True\<rparr> else out2)
                    in Inr (Finished result out3 search2))))"

text \<open>
  Two predicates for the invariants of the scan: \<open>found_ok\<close> says that a header may
  be taken as the answer for the type asked, \<open>step_inv\<close> relates the scan state before
  and after one active header.
\<close>

definition found_ok :: "rdatatype \<Rightarrow> bool \<Rightarrow> slabheader \<Rightarrow> bool" where
  "found_ok T cok f =
     (htype f = ucast T \<or> T = dns_rdatatype_any \<or> (htype f = ucast dns_rdatatype_cname \<and> cok))"

definition step_inv :: "nat \<Rightarrow> find_scan \<Rightarrow> find_scan \<Rightarrow> bool" where
  "step_inv node st s =
     (\<not> fs_empty_node s \<and>
      s_serial (fs_search s) = s_serial (fs_search st) \<and>
      s_options (fs_search s) = s_options (fs_search st) \<and>
      s_version (fs_search s) = s_version (fs_search st) \<and>
      (fs_maybe_zonecut s \<longrightarrow> fs_maybe_zonecut st) \<and>
      (zonecut (fs_search s) = zonecut (fs_search st) \<or> zonecut (fs_search s) = Some node))"

section \<open>Loading: loading_addrdataset and the wildcard helpers\<close>

text \<open>
  Modelled from the spec: the functions on names are outside the sources at hand. A name
  is the list of its labels, the owner's own label first and the root label (the empty
  label) last, in lower case, so that \<open>dns_name_equal\<close> is equality of the lists. A
  wildcard name has \<open>*\<close> as its first label. \<open>dns_name_getlabelsequence\<close> takes \<open>n\<close>
  labels starting at the label of index \<open>first\<close>.
\<close>

definition dns_name_equal :: "dns_name \<Rightarrow> dns_name \<Rightarrow> bool" where
  "dns_name_equal n1 n2 = (n1 = n2)"

definition dns_name_countlabels :: "dns_name \<Rightarrow> nat" where
  "dns_name_countlabels nm = length nm"

definition dns_name_iswildcard :: "dns_name \<Rightarrow> bool" where
  "dns_name_iswildcard nm = (case nm of [] \<Rightarrow> False | l # ls \<Rightarrow> l = ''*'')"

definition dns_name_getlabelsequence :: "dns_name \<Rightarrow> nat \<Rightarrow> nat \<Rightarrow> dns_name" where
  "dns_name_getlabelsequence nm first n = take n (drop first nm)"

text \<open>
  Modelled from the spec: the trie is outside the sources at hand. \<open>dns_qp_getname\<close>
  finds the entry of exactly the name given. \<open>dns_qp_insert\<close> refuses a name the trie
  holds (\<open>ISC_R_EXISTS\<close>) and otherwise puts the entry at its place in the canonical
  order of names: labels are compared from the root downwards, each label octet by octet,
  a proper prefix before the longer one.
\<close>

fun label_before :: "string \<Rightarrow> string \<Rightarrow> bool" where
  "label_before [] [] = False"
| "label_before [] (d # ds) = True"
| "label_before (c # cs) [] = False"
| "label_before (c # cs) (d # ds) =
     ((of_char c :: nat) < of_char d \<or> (c = d \<and> label_before cs ds))"

fun labels_before :: "string list \<Rightarrow> string list \<Rightarrow> bool" where
  "labels_before [] [] = False"
| "labels_before [] (m # ms) = True"
| "labels_before (l # ls) [] = False"
| "labels_before (l # ls) (m # ms) = (label_before l m \<or> (l = m \<and> labels_before ls ms))"

definition dns_name_before :: "dns_name \<Rightarrow> dns_name \<Rightarrow> bool" where
  "dns_name_before n1 n2 = labels_before (rev n1) (rev n2)"

fun qp_place :: "dns_name \<times> nat \<Rightarrow> (dns_name \<times> nat) list \<Rightarrow> (dns_name \<times> nat) list" where
  "qp_place e [] = [e]"
| "qp_place e (x # xs) =
     (if dns_name_before (fst e) (fst x) then e # x # xs else x # qp_place e xs)"

definition dns_qp_getname :: "(dns_name \<times> nat) list \<Rightarrow> dns_name \<Rightarrow> nat option" where
  "dns_qp_getname t nm = map_of t nm"

definition dns_qp_insert ::
  "(dns_name \<times> nat) list \<Rightarrow> dns_name \<Rightarrow> nat \<Rightarrow> isc_result \<times> (dns_name \<times> nat) list" where
  "dns_qp_insert t nm p =
     (if map_of t nm \<noteq> None then (ISC_R_EXISTS, t) else (ISC_R_SUCCESS, qp_place (nm, p) t))"

text \<open>
  The functions the loader calls outside the sources at hand, as parameters:
  \<open>dns_name_hash\<close>, \<open>dns_rdataslab_fromrdataset\<close> (the result code and the slab),
  \<open>dns__qpdb_add\<close> (the result code and the database after the merge) and
  \<open>dns_time64_from32\<close>.
\<close>

record dns_rdataset =
  rd_rdclass :: "16 word"
  rd_type :: rdatatype
  rd_covers :: rdatatype
  rd_ttl :: "32 word"
  rd_trust :: nat
  rd_attr_resign :: bool
  rd_resign :: "32 word"
  rd_rdata :: "8 word list list"

record externals =
  x_name_hash :: "dns_name \<Rightarrow> nat"
  x_slab_fromrdataset :: "dns_rdataset \<Rightarrow> isc_result \<times> 8 word list list"
  x_qpdb_add :: "qpdb \<Rightarrow> nat \<Rightarrow> slabheader \<Rightarrow> isc_result \<times> qpdb"
  x_time64_from32 :: "32 word \<Rightarrow> 64 word"

text \<open>
  Modelled from the spec: \<open>dns_qpdata_create\<close> is outside the sources at hand; it
  allocates a node of the given name, with no header, no flag set and the hash of the
  name.
\<close>

definition dns_qpdata_create :: "externals \<Rightarrow> qpdb \<Rightarrow> dns_name \<Rightarrow> nat \<times> qpdb" where
  "dns_qpdata_create x db nm =
     (next_node db,
      db\<lparr>nodes := (nodes db)(next_node db :=
             \<lparr>name = nm, data = [], wild = False, find_callback = False,
              nsec = DNS_DB_NSEC_NORMAL, locknum = 0, hashval = x_name_hash x nm\<rparr>),
         next_node := Suc (next_node db)\<rparr>)"

definition update_node :: "qpdb \<Rightarrow> nat \<Rightarrow> (rbtnode \<Rightarrow> rbtnode) \<Rightarrow> qpdb" where
  "update_node db p f = db\<lparr>nodes := (nodes db)(p := f (nodes db p))\<rparr>"

text \<open>
  \<open>dns__qpzone_wildcardmagic\<close>: the node of the name without its first label is found
  or created, and marked (the \<open>lock\<close> argument only chooses whether the bucket lock is
  taken).
\<close>

definition dns__qpzone_wildcardmagic ::
  "externals \<Rightarrow> qpdb \<Rightarrow> dns_name \<Rightarrow> failure + (isc_result \<times> qpdb)" where
  "dns__qpzone_wildcardmagic x db nm =
     (let n = dns_name_countlabels nm in
      if \<not> 2 \<le> n then Inl INSIST_failed
      else
        let foundname = dns_name_getlabelsequence nm 1 (n - 1);
            mark = (\<lambda>nd. nd\<lparr>nsec := DNS_DB_NSEC_NORMAL, find_callback := True, wild := True\<rparr>)
        in case dns_qp_getname (tree db) foundname of
             Some node \<Rightarrow> Inr (ISC_R_SUCCESS, update_node db node mark)
           | None \<Rightarrow>
               (case dns_qpdata_create x db foundname of
                  (node, db1) \<Rightarrow>
                    (case dns_qp_insert (tree db1) foundname node of
                       (result, t) \<Rightarrow>
                         if result \<noteq> ISC_R_SUCCESS then Inl INSIST_failed
                         else Inr (ISC_R_SUCCESS, update_node (db1\<lparr>tree := t\<rparr>) node mark))))"

text \<open>
  \<open>dns__qpzone_addwildcards\<close>: the loop over \<open>i\<close>, from one label more than the
  origin up to one less than the name.
\<close>

function addwildcards_loop ::
  "externals \<Rightarrow> dns_name \<Rightarrow> nat \<Rightarrow> nat \<Rightarrow> qpdb \<Rightarrow> failure + (isc_result \<times> qpdb)" where
  "addwildcards_loop x nm n i db =
     (if i < n then
        (if dns_name_iswildcard (dns_name_getlabelsequence nm (n - i) i) then
           (case dns__qpzone_wildcardmagic x db (dns_name_getlabelsequence nm (n - i) i) of
              Inl e \<Rightarrow> Inl e
            | Inr (result, db1) \<Rightarrow>
                if result \<noteq> ISC_R_SUCCESS then Inr (result, db1)
                else
                  (case dns_qp_getname (tree db1) nm of
                     Some node \<Rightarrow>
                       addwildcards_loop x nm n (i + 1)
                         (update_node db1 node (\<lambda>nd. nd\<lparr>nsec := DNS_DB_NSEC_NORMAL\<rparr>))
                   | None \<Rightarrow>
                       (case dns_qpdata_create x db1 nm of
                          (node, db2) \<Rightarrow>
                            (case dns_qp_insert (tree db2) nm node of
                               (r, t) \<Rightarrow>
                                 if r \<noteq> ISC_R_SUCCESS then Inl INSIST_failed
                                 else
                                   addwildcards_loop x nm n (i + 1)
                                     (update_node (db2\<lparr>tree := t\<rparr>) node
                                        (\<lambda>nd. nd\<lparr>nsec := DNS_DB_NSEC_NORMAL\<rparr>))))))
         else addwildcards_loop x nm n (i + 1) db)
      else Inr (ISC_R_SUCCESS, db))"
  by pat_completeness auto

termination
  by (relation "measure (\<lambda>(x, nm, n, i, db). n - i)") auto

definition dns__qpzone_addwildcards ::
  "externals \<Rightarrow> qpdb \<Rightarrow> dns_name \<Rightarrow> failure + (isc_result \<times> qpdb)" where
  "dns__qpzone_addwildcards x db nm =
     (let n = dns_name_countlabels nm;
          l = dns_name_countlabels (origin db)
      in addwildcards_loop x nm n (l + 1) db)"

definition delegating_type :: "qpdb \<Rightarrow> nat \<Rightarrow> rdatatype \<Rightarrow> bool" where
  "delegating_type db node t =
     (t = dns_rdatatype_dname \<or> (t = dns_rdatatype_ns \<and> (node \<noteq> origin_node db \<or> is_stub db)))"

text \<open>
  \<open>loadnode\<close>: the node of the name in the main trie, found or created, and for a
  name with an NSEC its twin in the auxiliary trie. The result is the code and the node
  stored through \<open>nodep\<close>.
\<close>

definition loadnode ::
  "externals \<Rightarrow> qpdb \<Rightarrow> dns_name \<Rightarrow> bool \<Rightarrow> failure + (isc_result \<times> nat \<times> qpdb)" where
  "loadnode x db nm hasnsec =
     (let aux = (\<lambda>node db0.
            if \<not> hasnsec then Inr (ISC_R_SUCCESS, node, db0)
            else
              (case dns_qp_getname (nsec_tree db0) nm of
                 Some nsecnode \<Rightarrow>
                   Inr (ISC_R_SUCCESS, node,
                        update_node db0 node (\<lambda>nd. nd\<lparr>nsec := DNS_DB_NSEC_HAS_NSEC\<rparr>))
               | None \<Rightarrow>
                   (case dns_qpdata_create x db0 nm of
                      (nsecnode, db1) \<Rightarrow>
                        (case dns_qp_insert (nsec_tree db1) nm nsecnode of
                           (nsecresult, t) \<Rightarrow>
                             if nsecresult \<noteq> ISC_R_SUCCESS then Inl INSIST_failed
                             else
                               Inr (ISC_R_SUCCESS, node,
                                    update_node
                                      (update_node (db1\<lparr>nsec_tree := t\<rparr>) nsecnode
                                         (\<lambda>nd. nd\<lparr>nsec := DNS_DB_NSEC_NSEC\<rparr>))
                                      node (\<lambda>nd. nd\<lparr>nsec := DNS_DB_NSEC_HAS_NSEC\<rparr>))))))
      in case dns_qp_getname (tree db) nm of
           None \<Rightarrow>
             (case dns_qpdata_create x db nm of
                (node, db1) \<Rightarrow>
                  (case dns_qp_insert (tree db1) nm node of
                     (noderesult, t) \<Rightarrow>
                       if noderesult \<noteq> ISC_R_SUCCESS then Inl INSIST_failed
                       else aux node (db1\<lparr>tree := t\<rparr>)))
         | Some node \<Rightarrow>
             if nsec (nodes db node) = DNS_DB_NSEC_HAS_NSEC then Inr (ISC_R_SUCCESS, node, db)
             else aux node db)"

text \<open>
  \<open>loading_addrdataset\<close>, with \<open>now\<close> the time of the load context. The result is
  the code returned and the database as the call leaves it.
\<close>

definition loading_addrdataset ::
  "externals \<Rightarrow> qpdb \<Rightarrow> 32 word \<Rightarrow> dns_name \<Rightarrow> dns_rdataset \<Rightarrow> failure + (isc_result \<times> qpdb)" where
  "loading_addrdataset x db now nm rdataset =
     (if rd_rdclass rdataset \<noteq> rdclass db then Inl REQUIRE_failed
      else if rd_type rdataset = dns_rdatatype_soa \<and> \<not> dns_name_equal nm (origin db)
      then Inr (DNS_R_NOTZONETOP, db)
      else
        case (if rd_type rdataset \<noteq> dns_rdatatype_nsec3 \<and>
                 rd_covers rdataset \<noteq> dns_rdatatype_nsec3
              then dns__qpzone_addwildcards x db nm else Inr (ISC_R_SUCCESS, db)) of
          Inl e \<Rightarrow> Inl e
        | Inr (ignored, db1) \<Rightarrow>
            if dns_name_iswildcard nm \<and> rd_type rdataset = dns_rdatatype_ns
            then Inr (DNS_R_INVALIDNS, db1)
            else if dns_name_iswildcard nm \<and> rd_type rdataset = dns_rdatatype_nsec3
            then Inr (DNS_R_INVALIDNSEC3, db1)
            else
              case (if dns_name_iswildcard nm then dns__qpzone_wildcardmagic x db1 nm
                    else Inr (ISC_R_SUCCESS, db1)) of
                Inl e \<Rightarrow> Inl e
              | Inr (result, db2) \<Rightarrow>
                  if result \<noteq> ISC_R_SUCCESS then Inr (result, db2)
                  else
                    case (if rd_type rdataset = dns_rdatatype_nsec3 \<or>
                             rd_covers rdataset = dns_rdatatype_nsec3
                          then
                            (case dns_qp_getname (nsec3_tree db2) nm of
                               Some node \<Rightarrow>
                                 Inr (ISC_R_SUCCESS, node,
                                      update_node db2 node
                                        (\<lambda>nd. nd\<lparr>nsec := DNS_DB_NSEC_NSEC3\<rparr>))
                             | None \<Rightarrow>
                                 (case dns_qpdata_create x db2 nm of
                                    (node, db3) \<Rightarrow>
                                      (case dns_qp_insert (nsec3_tree db3) nm node of
                                         (r, t) \<Rightarrow>
                                           if r \<noteq> ISC_R_SUCCESS then Inl INSIST_failed
                                           else
                                             Inr (ISC_R_SUCCESS, node,
                                                  update_node (db3\<lparr>nsec3_tree := t\<rparr>) node
                                                    (\<lambda>nd. nd\<lparr>nsec := DNS_DB_NSEC_NSEC3\<rparr>)))))
                          else loadnode x db2 nm (rd_type rdataset = dns_rdatatype_nsec)) of
                      Inl e \<Rightarrow> Inl e
                    | Inr (result1, node, db4) \<Rightarrow>
                        if result1 \<noteq> ISC_R_SUCCESS \<and> result1 \<noteq> ISC_R_EXISTS
                        then Inr (result1, db4)
                        else
                          let db5 =
                                (if result1 = ISC_R_SUCCESS
                                 then update_node db4 node
                                        (\<lambda>nd. nd\<lparr>locknum := hashval nd mod node_lock_count db4\<rparr>)
                                 else db4)
                          in case x_slab_fromrdataset x rdataset of
                               (result2, region) \<Rightarrow>
                                 if result2 \<noteq> ISC_R_SUCCESS then Inr (result2, db5)
                                 else
                                   let newheader =
                                         \<lparr>htype = DNS_TYPEPAIR_VALUE (rd_type rdataset)
                                                    (rd_covers rdataset),
                                          hserial = 1, attributes = {},
                                          ttl = rd_ttl rdataset + now,
                                          trust = rd_trust rdataset, hcount = 1,
                                          hnode = node, heap_index = 0, heap = None,
                                          resign = 0, resign_lsb = 0, link_linked = False,
                                          glue_list = Glue_NULL, raw = region\<rparr>;
                                       newheader1 =
                                         (if rd_attr_resign rdataset
                                          then newheader
                                                 \<lparr>attributes := {RESIGN_attr},
                                                  resign :=
                                                    ucast (signed_drop_bit 1
                                                      (x_time64_from32 x (rd_resign rdataset))),
                                                  resign_lsb := ucast (rd_resign rdataset AND 1)\<rparr>
                                          else newheader)
                                   in case x_qpdb_add x db5 node newheader1 of
                                        (result3, db6) \<Rightarrow>
                                          if result3 = ISC_R_SUCCESS \<and>
                                             delegating_type db6 node (rd_type rdataset)
                                          then Inr (result3,
                                                 update_node db6 node
                                                   (\<lambda>nd. nd\<lparr>find_callback := True\<rparr>))
                                          else if result3 = DNS_R_UNCHANGED
                                          then Inr (ISC_R_SUCCESS, db6)
                                          else Inr (result3, db6))"

text \<open>
  What a call that adds no header leaves of the headers: the nodes that existed keep
  their header chains, a node allocated by the call has none, and the resign heaps are
  as before.
\<close>

definition no_header_added :: "qpdb \<Rightarrow> qpdb \<Rightarrow> bool" where
  "no_header_added db db' =
     (next_node db \<le> next_node db' \<and> heaps db' = heaps db \<and>
      (\<forall>p. data (nodes db' p) =
            (if next_node db \<le> p \<and> p < next_node db' then [] else data (nodes db p))))"

section \<open>The glue cache: addglue\<close>

text \<open>
  The additional section of a message is the list of its names, each with the rdatasets
  linked on it. \<open>addglue_to_message\<close> walks the glue list: for each element it links
  clones of the associated rdatasets on a fresh name, adds the name at the end of the
  section, and moves it to the front when an address rdataset is marked required.
\<close>

type_synonym msg_name = "dns_name \<times> glue_rdataset list"

definition IS_REQUIRED_GLUE :: "glue_rdataset \<Rightarrow> bool" where
  "IS_REQUIRED_GLUE r = gr_required r"

fun addglue_to_message :: "dns_glue list \<Rightarrow> msg_name list \<Rightarrow> msg_name list" where
  "addglue_to_message [] msg = msg"
| "addglue_to_message (ge # rest) msg =
     (let linked = (case rdataset_a ge of Some r \<Rightarrow> [r] | None \<Rightarrow> []) @
                   (case sigrdataset_a ge of Some r \<Rightarrow> [r] | None \<Rightarrow> []) @
                   (case rdataset_aaaa ge of Some r \<Rightarrow> [r] | None \<Rightarrow> []) @
                   (case sigrdataset_aaaa ge of Some r \<Rightarrow> [r] | None \<Rightarrow> []);
          prepend_name =
            ((case rdataset_a ge of Some r \<Rightarrow> IS_REQUIRED_GLUE r | None \<Rightarrow> False) \<or>
             (case rdataset_aaaa ge of Some r \<Rightarrow> IS_REQUIRED_GLUE r | None \<Rightarrow> False))
      in addglue_to_message rest
           (if prepend_name then (gluename ge, linked) # msg else msg @ [(gluename ge, linked)]))"

text \<open>
  The rdataset handed to \<open>addglue\<close>: its type, the database and node of its slab, and
  the header the slab belongs to (\<open>dns_slabheader_fromrdataset\<close>), as the call finds
  it.
\<close>

record slab_rdataset =
  sr_type :: rdatatype
  sr_db :: nat
  sr_node :: nat
  sr_header :: slabheader

datatype gluecachestatscounter =
    dns_gluecachestatscounter_hits_present
  | dns_gluecachestatscounter_hits_absent

text \<open>
  \<open>addglue\<close>. \<open>newglue\<close> collects the glue through
  \<open>dns_rdataset_additionaldata\<close>, outside the sources at hand: the list it returns is
  the parameter \<open>newglue_list\<close> (empty: \<open>NULL\<close>). \<open>seen\<close> is the value the
  compare-and-swap finds in \<open>header->glue_list\<close>: \<open>NULL\<close> unless another thread has
  published since the pointer was read. The result is the code returned, the header and
  the message as the call leaves them, the counters incremented, and whether the header
  was pushed on the glue stack of the version.
\<close>

definition addglue ::
  "dns_glue list \<Rightarrow> glue_ptr \<Rightarrow> qpdb \<Rightarrow> qpdb_version \<Rightarrow> slab_rdataset \<Rightarrow> msg_name list \<Rightarrow>
   failure + (isc_result \<times> slabheader \<times> msg_name list \<times> gluecachestatscounter list \<times> bool)" where
  "addglue newglue_list seen db version rdataset msg =
     (if sr_type rdataset \<noteq> dns_rdatatype_ns then Inl REQUIRE_failed
      else if dbid db \<noteq> sr_db rdataset then Inl REQUIRE_failed
      else if dbid db \<noteq> vqpdb version then Inl REQUIRE_failed
      else if is_cache db \<or> is_stub db then Inl REQUIRE_failed
      else
        let header = sr_header rdataset;
            glue0 = glue_list header;
            (glue, header1, pushed) =
              (if glue0 = Glue_NULL then
                 let glue1 = Glue_ptr newglue_list;
                     old_glue = seen;
                     header1 =
                       (if seen = Glue_NULL
                        then header\<lparr>glue_list :=
                               (if glue1 \<noteq> Glue_NULL then glue1 else Glue_minus1)\<rparr>
                        else header\<lparr>glue_list := seen\<rparr>)
                 in if old_glue \<noteq> Glue_NULL then (old_glue, header1, False)
                    else if glue1 \<noteq> Glue_NULL then (glue1, header1, True)
                    else (glue1, header1, False)
               else (glue0, header, False));
            counted =
              (if have_gluecachestats db
               then [if glue = Glue_minus1 then dns_gluecachestatscounter_hits_absent
                     else dns_gluecachestatscounter_hits_present]
               else [])
        in Inr (ISC_R_SUCCESS, header1,
                (case glue of Glue_minus1 \<Rightarrow> msg | Glue_ptr ge \<Rightarrow> addglue_to_message ge msg),
                counted, pushed))"

section \<open>Wildcards: step, activeempty, wildcard_blocked and find_wildcard\<close>

























section \<open>Example states\<close>

definition mk_header :: "typepair \<Rightarrow> 32 word \<Rightarrow> slabheaderattr set \<Rightarrow> 8 word list \<Rightarrow> slabheader" where
  "mk_header t s attrs bytes =
     \<lparr> htype = t, hserial = s, attributes = attrs, ttl = 3600, trust = 0, hcount = 1, hnode = 1,
       heap_index = 0, heap = None, resign = 0, resign_lsb = 0, link_linked = False,
       glue_list = Glue_NULL, raw = [bytes] \<rparr>"

definition mk_node :: "dns_name \<Rightarrow> slabheader list list \<Rightarrow> rbtnode" where
  "mk_node n d =
     \<lparr> name = n, data = d, wild = False, find_callback = False, nsec = DNS_DB_NSEC_NORMAL,
       locknum = 0, hashval = 0 \<rparr>"

definition resign_sooner :: "slabheader \<Rightarrow> slabheader \<Rightarrow> bool" where
  "resign_sooner h1 h2 =
     (resign h1 < resign h2 \<or> (resign h1 = resign h2 \<and> resign_lsb h1 < resign_lsb h2))"

definition ex_version :: qpdb_version where
  "ex_version =
     \<lparr> vqpdb = 7, vserial = 2, secure = False, havensec3 = False, vhash = 1, vflags = 0,
       viterations = 10, vsalt = [171, 205], vsalt_length = 2 \<rparr>"

text \<open>
  A zone \<open>example.\<close> whose node \<open>www.example.\<close> holds an A rdataset that was
  replaced at serial 2 and deleted at serial 3, and a TXT rdataset added at serial 1.
\<close>

definition ex_www_data :: "slabheader list list" where
  "ex_www_data =
     [[mk_header 1 3 {NONEXISTENT_attr} [], mk_header 1 2 {} [2], mk_header 1 1 {} [1]],
      [mk_header 16 1 {} [3]]]"

definition ex_db :: qpdb where
  "ex_db =
     \<lparr> dbid = 7, origin = [''example'', []], rdclass = 1, is_cache = False, is_stub = False,
       nodes = (\<lambda>p. if p = 1 then mk_node [''www'', ''example'', []] ex_www_data
                     else mk_node [''example'', []] []),
       next_node = 2,
       tree = [([''example'', []], 0), ([''www'', ''example'', []], 1)],
       nsec_tree = [], nsec3_tree = [], origin_node = 0, node_lock_count = 1,
       heaps = [[]], sooner = resign_sooner, current_version = ex_version,
       have_gluecachestats = False \<rparr>"

definition ex_time64 :: "32 word \<Rightarrow> 64 word" where
  "ex_time64 t = ucast t"

definition ex_rrsig :: slabheader where
  "ex_rrsig = (mk_header (DNS_SIGTYPE dns_rdatatype_a) 1 {RESIGN_attr} [7])
                 \<lparr>heap_index := 1, heap := Some 0, resign := 500, resign_lsb := 0\<rparr>"

definition ex_db_after :: qpdb where
  "ex_db_after =
     ex_db\<lparr>nodes := (\<lambda>p. if p = 1
               then mk_node [''www'', ''example'', []] [[ex_rrsig\<lparr>heap_index := 0, heap := None\<rparr>]]
               else mk_node [''example'', []] []),
           heaps := [[]]\<rparr>"

definition ex_db_before :: qpdb where
  "ex_db_before =
     ex_db\<lparr>nodes := (\<lambda>p. if p = 1 then mk_node [''www'', ''example'', []] [[ex_rrsig]]
                          else mk_node [''example'', []] []),
           heaps := [[ex_rrsig]]\<rparr>"

definition ex_keyed :: "32 word \<Rightarrow> 1 word \<Rightarrow> 8 word \<Rightarrow> slabheader" where
  "ex_keyed r lsb b =
     (mk_header (DNS_SIGTYPE dns_rdatatype_a) 1 {RESIGN_attr} [b])\<lparr>resign := r, resign_lsb := lsb\<rparr>"

definition ex_db_heaps :: qpdb where
  "ex_db_heaps =
     ex_db\<lparr>node_lock_count := 3,
           heaps := [[], [ex_keyed 300 0 1, ex_keyed 600 0 2], [ex_keyed 300 0 3, ex_keyed 400 1 4]]\<rparr>"

definition ex_iter :: qpiter where
  "ex_iter = \<lparr> it_entries = [], it_pos = None, it_neworigin = (\<lambda>_. False) \<rparr>"

definition ex_search :: qpdb_search where
  "ex_search =
     \<lparr> s_version = ex_version, s_serial = 1, s_options = {}, s_chain = [], s_iter = ex_iter,
       s_wild = False, zonecut = None, zonecut_header = None, zonecut_sigheader = None,
       zonecut_name = [], copy_name = False, need_cleanup = False \<rparr>"

definition ex_args :: find_args where
  "ex_args = \<lparr> nodep_given = True, foundname_given = True, rdataset_given = True,
                sigrdataset_given = True \<rparr>"

definition ex_out :: find_out where
  "ex_out = \<lparr> out_node = None, out_foundname = None, out_wildcard = False, out_rdataset = None,
               out_sigrdataset = None \<rparr>"

definition ex_hdr :: "nat \<Rightarrow> typepair \<Rightarrow> 8 word \<Rightarrow> slabheader" where
  "ex_hdr n t b = (mk_header t 1 {} [b])\<lparr>hnode := n\<rparr>"

text \<open>
  A zone \<open>example.\<close>: NS at the origin; \<open>child.example.\<close> with NS, CNAME and KEY,
  and \<open>ns.child.example.\<close> with A beneath it; \<open>old.example.\<close> with DNAME and its
  RRSIG; \<open>alias.example.\<close> with CNAME.
\<close>

definition ex_zone :: qpdb where
  "ex_zone =
     ex_db\<lparr>nodes := (\<lambda>p.
              if p = 0 then mk_node [''example'', []] [[ex_hdr 0 2 10]]
              else if p = 2 then
                (mk_node [''child'', ''example'', []]
                   [[ex_hdr 2 2 20], [ex_hdr 2 5 21], [ex_hdr 2 25 22]])
                  \<lparr>find_callback := True\<rparr>
              else if p = 3 then
                (mk_node [''old'', ''example'', []]
                   [[ex_hdr 3 39 30], [ex_hdr 3 (DNS_SIGTYPE dns_rdatatype_dname) 31]])
                  \<lparr>find_callback := True\<rparr>
              else if p = 5 then mk_node [''ns'', ''child'', ''example'', []] [[ex_hdr 5 1 50]]
              else mk_node [''alias'', ''example'', []] [[ex_hdr 4 5 40]]),
           next_node := 6,
           tree := [([''example'', []], 0), ([''alias'', ''example'', []], 4),
                    ([''child'', ''example'', []], 2), ([''ns'', ''child'', ''example'', []], 5),
                    ([''old'', ''example'', []], 3)]\<rparr>"

definition ex_search_glue :: qpdb_search where
  "ex_search_glue = ex_search\<lparr>s_options := {DNS_DBFIND_GLUEOK}\<rparr>"

text \<open>
  Functions for the loader to call, and a rdataset of class IN of a given type.
\<close>

definition ex_externals :: externals where
  "ex_externals =
     \<lparr> x_name_hash = length,
       x_slab_fromrdataset = (\<lambda>rd. (ISC_R_SUCCESS, rd_rdata rd)),
       x_qpdb_add = (\<lambda>db node h.
          (ISC_R_SUCCESS, update_node db node (\<lambda>nd. nd\<lparr>data := [h] # data nd\<rparr>))),
       x_time64_from32 = ex_time64 \<rparr>"

definition ex_rdataset :: "rdatatype \<Rightarrow> dns_rdataset" where
  "ex_rdataset t =
     \<lparr> rd_rdclass = 1, rd_type = t, rd_covers = 0, rd_ttl = 300, rd_trust = 0,
       rd_attr_resign = False, rd_resign = 0, rd_rdata = [[1]] \<rparr>"

text \<open>
  The NS rdataset of \<open>child.example.\<close>, bound to its header with no glue cached, and
  the glue for its name server: the address of \<open>ns.child.example.\<close>, required.
\<close>

definition ex_ns_rdataset :: slab_rdataset where
  "ex_ns_rdataset =
     \<lparr> sr_type = dns_rdatatype_ns, sr_db = 7, sr_node = 2, sr_header = ex_hdr 2 2 20 \<rparr>"

definition ex_glue :: "dns_glue list" where
  "ex_glue =
     [\<lparr> gluename = [''ns'', ''child'', ''example'', []],
        rdataset_a = Some \<lparr> gr_type = dns_rdatatype_a, gr_required = True,
                            gr_rdata = [192, 0, 2, 1] \<rparr>,
        sigrdataset_a = None, rdataset_aaaa = None, sigrdataset_aaaa = None \<rparr>]"

definition ex_msg :: "msg_name list" where
  "ex_msg = [([''other'', ''example'', []], [])]"



section \<open>Properties of the header chain scan\<close>

lemma active_version_find:
  "active_version s stack =
     (case find (\<lambda>h. hserial h \<le> s \<and> \<not> IGNORE h) stack of
        None \<Rightarrow> None | Some h \<Rightarrow> if NONEXISTENT h then None else Some h)"
  by (induction stack) auto

lemma active_version_mem: "active_version s stack = Some h \<Longrightarrow> h \<in> set stack"
  by (induction stack) (auto split: if_splits)

lemma active_version_type:
  "stack_ok stack \<Longrightarrow> active_version s stack = Some h \<Longrightarrow> stack_type stack = Some (htype h)"
  unfolding stack_ok_def using active_version_mem by blast

lemma find_at_serial_none:
  "\<forall>stack \<in> set chain. stack_type stack \<noteq> Some m \<Longrightarrow> find_at_serial s m chain = None"
  by (simp add: find_at_serial_def filter_False)

lemma find_at_serial_Cons:
  "find_at_serial s m (stack # rest) =
     (if stack_type stack = Some m then active_version s stack else find_at_serial s m rest)"
  by (simp add: find_at_serial_def active_version_find)

lemma chain_ok_Cons:
  "chain_ok (stack # rest) \<Longrightarrow>
     stack_ok stack \<and> chain_ok rest \<and> (\<forall>st \<in> set rest. stack_type st \<noteq> stack_type stack)"
  by (auto simp: chain_ok_def image_iff)

lemma scan_found:
  assumes "chain_ok chain"
    and "found \<noteq> None \<longrightarrow> (\<forall>stack \<in> set chain. stack_type stack \<noteq> Some m)"
  shows "fst (findrdataset_scan s m sm chain found foundsig) =
         (case find_at_serial s m chain of None \<Rightarrow> found | Some h \<Rightarrow> Some h)"
  using assms
proof (induction chain arbitrary: found foundsig)
  case Nil
  then show ?case by (simp add: find_at_serial_def)
next
  case (Cons stack rest)
  from Cons.prems(1) have ok: "stack_ok stack" "chain_ok rest"
    and dist: "\<forall>st \<in> set rest. stack_type st \<noteq> stack_type stack"
    using chain_ok_Cons by blast+
  show ?case
  proof (cases "stack_type stack = Some m")
    case True
    with Cons.prems(2) have fnone: "found = None" by auto
    from True dist have rest_none: "\<forall>st \<in> set rest. stack_type st \<noteq> Some m" by auto
    then have far: "find_at_serial s m rest = None" by (rule find_at_serial_none)
    have lhs: "find_at_serial s m (stack # rest) = active_version s stack"
      using True by (simp add: find_at_serial_Cons)
    show ?thesis
    proof (cases "active_version s stack")
      case None
      have "fst (findrdataset_scan s m sm rest None foundsig) = None"
        using Cons.IH [OF ok(2), of None foundsig] far by simp
      with None fnone lhs show ?thesis by simp
    next
      case (Some h)
      with ok(1) True have ht: "htype h = m" by (auto dest: active_version_type)
      have "fst (findrdataset_scan s m sm rest (Some h) fs) = Some h" for fs
        using Cons.IH [OF ok(2), of "Some h" fs] far rest_none by simp
      with Some ht lhs show ?thesis by simp
    qed
  next
    case False
    from Cons.prems(2) have p2: "found \<noteq> None \<longrightarrow> (\<forall>st \<in> set rest. stack_type st \<noteq> Some m)"
      by auto
    have lhs: "find_at_serial s m (stack # rest) = find_at_serial s m rest"
      using False by (simp add: find_at_serial_Cons)
    have ih: "fst (findrdataset_scan s m sm rest found fs) =
         (case find_at_serial s m rest of None \<Rightarrow> found | Some h \<Rightarrow> Some h)" for fs
      by (rule Cons.IH [OF ok(2) p2])
    show ?thesis
    proof (cases "active_version s stack")
      case None
      with lhs ih show ?thesis by simp
    next
      case (Some h)
      with ok(1) False have ht: "htype h \<noteq> m" by (auto dest: active_version_type)
      show ?thesis
      proof (cases "htype h = sm \<and> found \<noteq> None")
        case True
        with p2 have "find_at_serial s m rest = None" by (auto intro: find_at_serial_none)
        with True Some ht lhs show ?thesis by simp
      next
        case False
        with Some ht lhs ih show ?thesis by (cases found) simp_all
      qed
    qed
  qed
qed


section \<open>Properties of the scan of the resign heaps\<close>

lemma scan_none:
  "(\<forall>h \<in> set hs. h = []) \<Longrightarrow> getsigningtime_scan snr hs i best = best"
  by (induction hs arbitrary: i) (auto simp: isc_heap_element_def)

lemma first_min_Cons_0: "h \<noteq> [] \<Longrightarrow> first_min snr (h # hs) (hd h) 0"
  by (simp add: first_min_def)

lemma first_min_Cons_Suc:
  assumes "first_min snr hs w k" and "h \<noteq> [] \<Longrightarrow> snr w (hd h)"
  shows "first_min snr (h # hs) w (Suc k)"
  unfolding first_min_def
proof (intro conjI allI impI)
  fix j assume "j < Suc k" and "(h # hs) ! j \<noteq> []"
  with assms show "snr w (hd ((h # hs) ! j))"
    by (cases j) (auto simp: first_min_def)
next
  show "Suc k < length (h # hs)" using assms(1) by (simp add: first_min_def)
next
  show "(h # hs) ! Suc k \<noteq> []" using assms(1) by (simp add: first_min_def)
next
  show "w = hd ((h # hs) ! Suc k)" using assms(1) by (simp add: first_min_def)
qed

lemma scan_empty_heap:
  "getsigningtime_scan snr ([] # hs) i best = getsigningtime_scan snr hs (i + 1) best"
  by (simp add: isc_heap_element_def)

lemma scan_first_heap:
  "getsigningtime_scan snr ((this # others) # hs) i None =
     getsigningtime_scan snr hs (i + 1) (Some (this, i))"
  by (simp add: isc_heap_element_def)

lemma scan_sooner_heap:
  "snr this b \<Longrightarrow> getsigningtime_scan snr ((this # others) # hs) i (Some (b, j)) =
     getsigningtime_scan snr hs (i + 1) (Some (this, i))"
  by (simp add: isc_heap_element_def)

lemma scan_later_heap:
  "\<not> snr this b \<Longrightarrow> getsigningtime_scan snr ((this # others) # hs) i (Some (b, j)) =
     getsigningtime_scan snr hs (i + 1) (Some (b, j))"
  by (simp add: isc_heap_element_def)

lemma scan_some:
  assumes "sooner_order snr"
    and "\<forall>h \<in> set hs. heap_top_first snr h"
    and "best \<noteq> None \<or> (\<exists>h \<in> set hs. h \<noteq> [])"
  shows "\<exists>w k. getsigningtime_scan snr hs i best = Some (w, k) \<and>
           (\<forall>h \<in> set hs. \<forall>x \<in> set h. \<not> snr x w) \<and>
           (\<forall>b j. best = Some (b, j) \<longrightarrow> \<not> snr b w) \<and>
           (best = Some (w, k) \<or>
             (i \<le> k \<and> first_min snr hs w (k - i) \<and> (\<forall>b j. best = Some (b, j) \<longrightarrow> snr w b)))"
  using assms
proof (induction hs arbitrary: i best)
  case Nil
  from Nil(1) have irr: "\<And>a. \<not> snr a a" unfolding sooner_order_def by blast
  from Nil(3) obtain b j where "best = Some (b, j)" by (cases best) auto
  then show ?case by (simp add: irr)
next
  case (Cons h hs)
  from Cons.prems(1) have irr: "\<And>a. \<not> snr a a"
    and tr: "\<And>a b c. snr a b \<Longrightarrow> snr b c \<Longrightarrow> snr a c"
    and ntr: "\<And>a b c. \<not> snr a b \<Longrightarrow> \<not> snr b c \<Longrightarrow> \<not> snr a c"
    unfolding sooner_order_def by blast+
  from Cons.prems(2) have tops: "\<forall>h \<in> set hs. heap_top_first snr h" and top: "heap_top_first snr h"
    by auto
  show ?case
  proof (cases h)
    case Nil
    with Cons.prems(3) have p3: "best \<noteq> None \<or> (\<exists>h \<in> set hs. h \<noteq> [])" by auto
    from Cons.IH [OF Cons.prems(1) tops p3, of "i + 1"]
    obtain w k where r: "getsigningtime_scan snr hs (i + 1) best = Some (w, k)"
      and m: "\<forall>h \<in> set hs. \<forall>x \<in> set h. \<not> snr x w"
      and b: "\<forall>b j. best = Some (b, j) \<longrightarrow> \<not> snr b w"
      and c: "best = Some (w, k) \<or>
             (i + 1 \<le> k \<and> first_min snr hs w (k - (i + 1)) \<and>
              (\<forall>b j. best = Some (b, j) \<longrightarrow> snr w b))"
      by blast
    have r': "getsigningtime_scan snr (h # hs) i best = Some (w, k)"
      using r unfolding Nil by (simp only: scan_empty_heap)
    have m': "\<forall>h' \<in> set (h # hs). \<forall>x \<in> set h'. \<not> snr x w"
      using m Nil by simp
    have c': "best = Some (w, k) \<or>
             (i \<le> k \<and> first_min snr (h # hs) w (k - i) \<and>
              (\<forall>b j. best = Some (b, j) \<longrightarrow> snr w b))"
    proof (cases "best = Some (w, k)")
      case True then show ?thesis by simp
    next
      case False
      with c have k: "i + 1 \<le> k" and fm: "first_min snr hs w (k - (i + 1))"
        and bb: "\<forall>b j. best = Some (b, j) \<longrightarrow> snr w b" by auto
      from k have e: "k - i = Suc (k - (i + 1))" by simp
      have "first_min snr (h # hs) w (Suc (k - (i + 1)))"
        using fm Nil by (intro first_min_Cons_Suc) simp_all
      with e k bb show ?thesis by simp
    qed
    from r' m' b c' show ?thesis by blast
  next
    case (Cons this others)
    from top Cons have top': "\<forall>x \<in> set h. \<not> snr x this" by (simp add: heap_top_first_def)
    have hne: "h \<noteq> []" and hdh: "hd h = this" using Cons by simp_all
    show ?thesis
    proof (cases "best = None \<or> (\<exists>b j. best = Some (b, j) \<and> snr this b)")
      case True
      then have r0: "getsigningtime_scan snr (h # hs) i best =
                     getsigningtime_scan snr hs (i + 1) (Some (this, i))"
        unfolding Cons using scan_first_heap scan_sooner_heap by blast
      from Cons.IH [OF Cons.prems(1) tops, of "Some (this, i)" "i + 1"]
      obtain w k where r: "getsigningtime_scan snr hs (i + 1) (Some (this, i)) = Some (w, k)"
        and m: "\<forall>h \<in> set hs. \<forall>x \<in> set h. \<not> snr x w"
        and b: "\<not> snr this w"
        and c: "(w = this \<and> k = i) \<or>
               (i + 1 \<le> k \<and> first_min snr hs w (k - (i + 1)) \<and> snr w this)"
        by auto
      have m': "\<forall>h' \<in> set (h # hs). \<forall>x \<in> set h'. \<not> snr x w"
        using m top' b ntr by auto
      have b': "\<forall>b0 j. best = Some (b0, j) \<longrightarrow> \<not> snr b0 w"
        using True b tr by auto
      have c': "i \<le> k \<and> first_min snr (h # hs) w (k - i) \<and>
                (\<forall>b0 j. best = Some (b0, j) \<longrightarrow> snr w b0)"
      proof (cases "w = this \<and> k = i")
        case True
        with \<open>best = None \<or> (\<exists>b j. best = Some (b, j) \<and> snr this b)\<close> hne hdh
        show ?thesis using first_min_Cons_0 [of h snr hs] by auto
      next
        case False
        with c have k: "i + 1 \<le> k" and fm: "first_min snr hs w (k - (i + 1))" and wt: "snr w this"
          by auto
        from k have e: "k - i = Suc (k - (i + 1))" by simp
        have "first_min snr (h # hs) w (Suc (k - (i + 1)))"
          using fm wt hdh by (intro first_min_Cons_Suc) simp_all
        moreover have "\<forall>b0 j. best = Some (b0, j) \<longrightarrow> snr w b0"
          using \<open>best = None \<or> (\<exists>b j. best = Some (b, j) \<and> snr this b)\<close> wt tr by auto
        ultimately show ?thesis using e k by simp
      qed
      from r0 r m' b' c' show ?thesis by auto
    next
      case False
      then obtain b0 j0 where best: "best = Some (b0, j0)" and ns: "\<not> snr this b0"
        by (cases best) auto
      have r0: "getsigningtime_scan snr (h # hs) i best =
                getsigningtime_scan snr hs (i + 1) best"
        unfolding Cons best using ns by (rule scan_later_heap)
      from Cons.IH [OF Cons.prems(1) tops, of best "i + 1"] best
      obtain w k where r: "getsigningtime_scan snr hs (i + 1) best = Some (w, k)"
        and m: "\<forall>h \<in> set hs. \<forall>x \<in> set h. \<not> snr x w"
        and b: "\<not> snr b0 w"
        and c: "(w = b0 \<and> k = j0) \<or>
               (i + 1 \<le> k \<and> first_min snr hs w (k - (i + 1)) \<and> snr w b0)"
        by auto
      have tw: "\<not> snr this w" using ns b ntr by blast
      have m': "\<forall>h' \<in> set (h # hs). \<forall>x \<in> set h'. \<not> snr x w"
        using m top' tw ntr by auto
      have b': "\<forall>b1 j. best = Some (b1, j) \<longrightarrow> \<not> snr b1 w"
        using best b by simp
      have c': "best = Some (w, k) \<or>
             (i \<le> k \<and> first_min snr (h # hs) w (k - i) \<and>
              (\<forall>b1 j. best = Some (b1, j) \<longrightarrow> snr w b1))"
      proof (cases "w = b0 \<and> k = j0")
        case True with best show ?thesis by simp
      next
        case False
        with c have k: "i + 1 \<le> k" and fm: "first_min snr hs w (k - (i + 1))" and wb: "snr w b0"
          by auto
        from k have e: "k - i = Suc (k - (i + 1))" by simp
        have wt: "snr w this" using wb ns ntr by blast
        have "first_min snr (h # hs) w (Suc (k - (i + 1)))"
          using fm wt hdh by (intro first_min_Cons_Suc) simp_all
        with e k wb best show ?thesis by simp
      qed
      from r0 r m' b' c' show ?thesis by auto
    qed
  qed
qed


lemma resign_sooner_order: "sooner_order resign_sooner"
  unfolding sooner_order_def resign_sooner_def by (intro conjI allI impI) auto

lemma zonecut_types_distinct:
  "(ucast dns_rdatatype_ns :: typepair) \<noteq> ucast dns_rdatatype_dname"
  "(ucast dns_rdatatype_ns :: typepair) \<noteq> DNS_SIGTYPE dns_rdatatype_dname"
  "(ucast dns_rdatatype_dname :: typepair) \<noteq> DNS_SIGTYPE dns_rdatatype_dname"
  by (simp_all add: dns_rdatatype_ns_def dns_rdatatype_dname_def DNS_SIGTYPE_def
      DNS_TYPEPAIR_VALUE_def dns_rdatatype_rrsig_def)


lemma check_zonecut_scan_find:
  assumes "chain_ok chain"
  shows "check_zonecut_scan s c chain (d0, g0, n0) =
     ((case find_at_serial s (ucast dns_rdatatype_dname) chain of None \<Rightarrow> d0 | Some h \<Rightarrow> Some h),
      (case find_at_serial s (DNS_SIGTYPE dns_rdatatype_dname) chain of
         None \<Rightarrow> g0 | Some h \<Rightarrow> Some h),
      (if c then (case find_at_serial s (ucast dns_rdatatype_ns) chain of
                    None \<Rightarrow> n0 | Some h \<Rightarrow> Some h)
       else n0))"
  using assms
proof (induction chain arbitrary: d0 g0 n0 c)
  case Nil
  then show ?case by (simp add: find_at_serial_def)
next
  case (Cons stack rest)
  from Cons.prems have ok: "stack_ok stack" "chain_ok rest"
    and dist: "\<forall>st \<in> set rest. stack_type st \<noteq> stack_type stack"
    using chain_ok_Cons by blast+
  from ok(1) obtain tophdr down where st: "stack = tophdr # down"
    by (cases stack) (auto simp: stack_ok_def)
  have ty: "stack_type stack = Some (htype tophdr)" by (simp add: st stack_type_def)
  from dist ty have none: "find_at_serial s (htype tophdr) rest = None"
    by (intro find_at_serial_none) simp
  have act: "htype h = htype tophdr" if "active_version s (tophdr # down) = Some h" for h
    using active_version_type [OF ok(1), of s h] that ty st by simp
  note ih = Cons.IH [OF ok(2)]
  note d = zonecut_types_distinct
  have fc: "find_at_serial s m (stack # rest) =
     (if htype tophdr = m then active_version s (tophdr # down) else find_at_serial s m rest)" for m
    using ty unfolding st by (simp add: find_at_serial_Cons del: active_version.simps)
  show ?case
  proof (cases "active_version s (tophdr # down)")
    case None
    consider (ns) "htype tophdr = ucast dns_rdatatype_ns"
      | (dname) "htype tophdr = ucast dns_rdatatype_dname"
      | (sig) "htype tophdr = DNS_SIGTYPE dns_rdatatype_dname"
      | (other) "htype tophdr \<noteq> ucast dns_rdatatype_ns" "htype tophdr \<noteq> ucast dns_rdatatype_dname"
          "htype tophdr \<noteq> DNS_SIGTYPE dns_rdatatype_dname"
      by blast
    then show ?thesis
    proof cases
      case ns
      with None none d show ?thesis unfolding st fc [unfolded st] by (simp add: ih del: active_version.simps)
    next
      case dname
      with None none d show ?thesis unfolding st fc [unfolded st] by (simp add: ih del: active_version.simps)
    next
      case sig
      with None none d show ?thesis unfolding st fc [unfolded st] by (simp add: ih del: active_version.simps)
    next
      case other
      with None show ?thesis unfolding st fc [unfolded st] by (simp add: ih del: active_version.simps)
    qed
  next
    case (Some h)
    then have hh: "htype h = htype tophdr" by (rule act)
    consider (ns) "htype tophdr = ucast dns_rdatatype_ns"
      | (dname) "htype tophdr = ucast dns_rdatatype_dname"
      | (sig) "htype tophdr = DNS_SIGTYPE dns_rdatatype_dname"
      | (other) "htype tophdr \<noteq> ucast dns_rdatatype_ns" "htype tophdr \<noteq> ucast dns_rdatatype_dname"
          "htype tophdr \<noteq> DNS_SIGTYPE dns_rdatatype_dname"
      by blast
    then show ?thesis
    proof cases
      case ns
      with Some hh none d show ?thesis unfolding st fc [unfolded st] by (simp add: ih del: active_version.simps)
    next
      case dname
      with Some hh none d show ?thesis unfolding st fc [unfolded st] by (simp add: ih del: active_version.simps)
    next
      case sig
      with Some hh none d show ?thesis unfolding st fc [unfolded st] by (simp add: ih del: active_version.simps)
    next
      case other
      with Some hh show ?thesis unfolding st fc [unfolded st] by (simp add: ih del: active_version.simps)
    qed
  qed
qed


lemma case_option_same: "(case x of None \<Rightarrow> None | Some h \<Rightarrow> Some h) = x"
  by (cases x) simp_all

lemma find_at_serial_type:
  "chain_ok chain \<Longrightarrow> find_at_serial s t chain = Some h \<Longrightarrow> htype h = t"
proof (induction chain)
  case Nil
  then show ?case by (simp add: find_at_serial_def)
next
  case (Cons stack rest)
  from Cons.prems(1) have ok: "stack_ok stack" "chain_ok rest"
    using chain_ok_Cons by blast+
  show ?case
  proof (cases "stack_type stack = Some t")
    case True
    with Cons.prems(2) have "active_version s stack = Some h" by (simp add: find_at_serial_Cons)
    from active_version_type [OF ok(1) this] True show ?thesis by simp
  next
    case False
    with Cons.prems(2) have "find_at_serial s t rest = Some h" by (simp add: find_at_serial_Cons)
    with Cons.IH ok(2) show ?thesis by blast
  qed
qed

lemma check_zonecut_scan_node:
  assumes "chain_ok (data (nodes db node))"
  shows "check_zonecut_scan s c (data (nodes db node)) (None, None, None) =
     (find_at_serial s (ucast dns_rdatatype_dname) (data (nodes db node)),
      find_at_serial s (DNS_SIGTYPE dns_rdatatype_dname) (data (nodes db node)),
      if c then find_at_serial s (ucast dns_rdatatype_ns) (data (nodes db node)) else None)"
  by (simp add: check_zonecut_scan_find [OF assms] case_option_same)


lemma ex_zone_chain_ok: "chain_ok (data (nodes ex_zone p))"
  by (simp add: ex_zone_def mk_node_def chain_ok_def stack_ok_def stack_type_def ex_hdr_def
      mk_header_def DNS_SIGTYPE_def DNS_TYPEPAIR_VALUE_def dns_rdatatype_dname_def
      dns_rdatatype_rrsig_def)

section \<open>Properties of the scan of zone_find\<close>

lemma types_distinct_cname:
  "(ucast dns_rdatatype_ns :: typepair) \<noteq> ucast dns_rdatatype_cname"
  "(ucast dns_rdatatype_nsec3 :: typepair) \<noteq> ucast dns_rdatatype_cname"
  by (simp_all add: dns_rdatatype_ns_def dns_rdatatype_cname_def dns_rdatatype_nsec3_def)

lemma matchparams_ok:
  assumes "htype h = ucast dns_rdatatype_nsec3 \<longrightarrow>
           matchparams_rdata (s_version search) (raw h) = Inr True"
  shows "(if htype h = ucast dns_rdatatype_nsec3 then matchparams h search else Inr True) = Inr True"
  using assms by (simp add: matchparams_def)

lemma find_match_cname_step:
  assumes "htype h \<noteq> ucast T" and "T \<noteq> dns_rdatatype_any"
    and "htype h = ucast dns_rdatatype_nsec3 \<longrightarrow> matchparams_rdata v (raw h) = Inr True"
    and "s_version (fs_search st) = v" and "fs_found st = fnd"
  shows "\<exists>st'. (find_match T True h st = Inr (Continue st') \<or>
                (find_match T True h st = Inr (Break st') \<and> fs_found st' \<noteq> None)) \<and>
           fs_found st' = (if htype h = ucast dns_rdatatype_cname then Some h else fnd)"
proof -
  from assms(3,4) have
    "htype h = ucast dns_rdatatype_nsec3 \<longrightarrow>
       matchparams_rdata (s_version (fs_search st)) (raw h) = Inr True" by simp
  note mp = matchparams_ok [OF this]
  show ?thesis
  proof (cases "htype h = ucast dns_rdatatype_cname")
    case True
    then show ?thesis using assms(1,2,5)
      by (cases "fs_cnamesig st"; cases "fs_maybe_zonecut st"; cases "fs_foundsig st")
         (simp_all add: find_match_def Let_def types_distinct_cname(2) [symmetric])
  next
    case False
    then show ?thesis using assms(1,2,5)
      by (cases "fs_maybe_zonecut st"; cases "fs_found st")
         (simp_all add: find_match_def mp Let_def)
  qed
qed

lemma find_match_inv:
  assumes "find_match T cok h st = Inr x"
  shows "case x of
           Goto_partial_match s \<Rightarrow> s = st
         | Continue s \<Rightarrow>
             fs_empty_node s = fs_empty_node st \<and> fs_search s = fs_search st \<and>
             fs_maybe_zonecut s = fs_maybe_zonecut st \<and> fs_at_zonecut s = fs_at_zonecut st \<and>
             (fs_found s = fs_found st \<or>
              (fs_found s = Some h \<and>
               (htype h = ucast T \<or> T = dns_rdatatype_any \<or>
                (htype h = ucast dns_rdatatype_cname \<and> cok))))
         | Break s \<Rightarrow>
             fs_empty_node s = fs_empty_node st \<and> fs_search s = fs_search st \<and>
             fs_maybe_zonecut s = fs_maybe_zonecut st \<and> fs_at_zonecut s = fs_at_zonecut st \<and>
             (fs_found s = fs_found st \<or>
              (fs_found s = Some h \<and>
               (htype h = ucast T \<or> T = dns_rdatatype_any \<or>
                (htype h = ucast dns_rdatatype_cname \<and> cok))))"
proof (cases "if htype h = ucast dns_rdatatype_nsec3 then matchparams h (fs_search st) else Inr True")
  case (Inl e)
  with assms show ?thesis by (simp add: find_match_def)
next
  case (Inr b)
  show ?thesis
  proof (cases b)
    case False
    with Inr assms show ?thesis by (auto simp: find_match_def)
  next
    case True
    with Inr assms show ?thesis
      by (auto simp: find_match_def Let_def split: if_splits)
  qed
qed


lemma find_header_inv:
  assumes "find_header node T cok h st = Inr x"
  shows "case x of
           Goto_partial_match s \<Rightarrow> step_inv node st s
         | Continue s \<Rightarrow>
             step_inv node st s \<and> (fs_found s = fs_found st \<or> (fs_found s = Some h \<and> found_ok T cok h))
         | Break s \<Rightarrow>
             step_inv node st s \<and>
             (fs_found s = None \<or> fs_found s = fs_found st \<or> (fs_found s = Some h \<and> found_ok T cok h))"
proof (cases "fs_maybe_zonecut st \<and> htype h = ucast dns_rdatatype_ns")
  case False
  then have "find_match T cok h (st\<lparr>fs_empty_node := False\<rparr>) = Inr x"
    using assms by (auto simp: find_header_def Let_def)
  from find_match_inv [OF this] show ?thesis
    by (cases x) (auto simp: step_inv_def found_ok_def)
next
  case True
  define st1 where "st1 = st\<lparr>fs_empty_node := False,
       fs_search := (fs_search st)\<lparr>zonecut := Some node, zonecut_header := Some h,
                                   zonecut_sigheader := None, need_cleanup := True\<rparr>,
       fs_maybe_zonecut := False, fs_at_zonecut := True\<rparr>"
  have inv1: "step_inv node st st1" by (simp add: step_inv_def st1_def)
  have f1: "fs_found st1 = fs_found st" "fs_foundsig st1 = fs_foundsig st"
    "s_options (fs_search st1) = s_options (fs_search st)"
    by (simp_all add: st1_def)
  let ?A = "DNS_DBFIND_GLUEOK \<notin> s_options (fs_search st) \<and>
                T \<noteq> dns_rdatatype_nsec \<and> T \<noteq> dns_rdatatype_key"
  let ?B = "fs_found st \<noteq> None \<and> fs_foundsig st \<noteq> None"
  have fh1: "find_header node T cok h st = Inr (Break (st1\<lparr>fs_found := None\<rparr>))" if "?A"
    using True that by (simp add: find_header_def Let_def st1_def)
  have fh2: "find_header node T cok h st = Inr (Break st1)" if "\<not> ?A" "?B"
    using True that by (auto simp: find_header_def Let_def st1_def)
  have fh3: "find_header node T cok h st = find_match T cok h st1" if "\<not> ?A" "\<not> ?B"
    using True that by (auto simp: find_header_def Let_def st1_def)
  show ?thesis
  proof (cases ?A)
    case True
    from fh1 [OF True] assms have "x = Break (st1\<lparr>fs_found := None\<rparr>)" by simp
    with inv1 show ?thesis by (simp add: step_inv_def)
  next
    case nglue: False
    show ?thesis
    proof (cases ?B)
      case True
      from fh2 [OF nglue True] assms have "x = Break st1" by simp
      with inv1 f1 show ?thesis by simp
    next
      case False
      from fh3 [OF nglue False] assms have m: "find_match T cok h st1 = Inr x" by simp
      have tr: "step_inv node st s" if "fs_empty_node s = fs_empty_node st1"
        "fs_search s = fs_search st1" "fs_maybe_zonecut s = fs_maybe_zonecut st1" for s
        using inv1 that by (simp add: step_inv_def)
      show ?thesis
      proof (cases x)
        case (Continue s)
        with find_match_inv [OF m] f1 tr [of s] show ?thesis by (auto simp: found_ok_def)
      next
        case (Break s)
        with find_match_inv [OF m] f1 tr [of s] show ?thesis by (auto simp: found_ok_def)
      next
        case (Goto_partial_match s)
        with find_match_inv [OF m] inv1 show ?thesis by simp
      qed
    qed
  qed
qed


lemma find_loop_inv:
  assumes "find_loop node T cok chain st = Inr (Scan_end st')"
    and "fs_found st \<noteq> None \<longrightarrow> \<not> fs_empty_node st"
    and "\<forall>f. fs_found st = Some f \<longrightarrow> found_ok T cok f"
  shows "(fs_found st' \<noteq> None \<longrightarrow> \<not> fs_empty_node st') \<and>
         (\<forall>f. fs_found st' = Some f \<longrightarrow> found_ok T cok f)"
  using assms
proof (induction chain arbitrary: st)
  case Nil
  then show ?case by simp
next
  case (Cons stack rest)
  show ?case
  proof (cases "active_version (s_serial (fs_search st)) stack")
    case None
    with Cons.prems(1) have "find_loop node T cok rest st = Inr (Scan_end st')" by simp
    from Cons.IH [OF this Cons.prems(2,3)] show ?thesis .
  next
    case (Some h)
    show ?thesis
    proof (cases "find_header node T cok h st")
      case (Inl e)
      with Some Cons.prems(1) show ?thesis by simp
    next
      case (Inr x)
      note inv = find_header_inv [OF Inr]
      show ?thesis
      proof (cases x)
        case (Continue s)
        with Some Inr Cons.prems(1) have l: "find_loop node T cok rest s = Inr (Scan_end st')"
          by simp
        from inv Continue have a: "fs_found s \<noteq> None \<longrightarrow> \<not> fs_empty_node s"
          by (simp add: step_inv_def)
        from inv Continue Cons.prems(3) have b: "\<forall>f. fs_found s = Some f \<longrightarrow> found_ok T cok f"
          by auto
        from Cons.IH [OF l a b] show ?thesis .
      next
        case (Break s)
        with Some Inr Cons.prems(1) have e: "st' = s" by simp
        from inv Break Cons.prems(3) show ?thesis unfolding e
          by (auto simp: step_inv_def)
      next
        case (Goto_partial_match s)
        with Some Inr Cons.prems(1) show ?thesis by simp
      qed
    qed
  qed
qed

lemma zone_find_scan_inv:
  assumes "zone_find_scan db search node T = Inr (Scan_end st)"
  shows "(fs_found st \<noteq> None \<longrightarrow> \<not> fs_empty_node st) \<and>
         (\<forall>f. fs_found st = Some f \<longrightarrow> found_ok T (find_cname_ok search T) f)"
  using assms unfolding zone_find_scan_def by (rule find_loop_inv) simp_all

lemma find_at_serial_rest:
  assumes "chain_ok (stack # rest)" and "find_at_serial s t rest = Some h"
  shows "find_at_serial s t (stack # rest) = Some h"
proof (cases "stack_type stack = Some t")
  case True
  with chain_ok_Cons [OF assms(1)] have "\<forall>st \<in> set rest. stack_type st \<noteq> Some t" by auto
  from find_at_serial_none [OF this] assms(2) show ?thesis by simp
next
  case False
  with assms(2) show ?thesis by (simp add: find_at_serial_Cons)
qed

lemma find_at_serial_active:
  assumes "chain_ok (stack # rest)" and "active_version s stack = Some h"
  shows "find_at_serial s (htype h) (stack # rest) = Some h"
  using active_version_type [OF _ assms(2)] chain_ok_Cons [OF assms(1)] assms(2)
  by (simp add: find_at_serial_Cons)

lemma find_header_cname_step:
  assumes "htype h \<noteq> ucast T" and "T \<noteq> dns_rdatatype_any"
    and "fs_maybe_zonecut st \<and> htype h = ucast dns_rdatatype_ns \<longrightarrow>
           DNS_DBFIND_GLUEOK \<in> s_options (fs_search st)"
    and "htype h = ucast dns_rdatatype_nsec3 \<longrightarrow>
           matchparams_rdata (s_version (fs_search st)) (raw h) = Inr True"
  shows "\<exists>st'. (find_header node T True h st = Inr (Continue st') \<or>
                (find_header node T True h st = Inr (Break st') \<and> fs_found st' \<noteq> None)) \<and>
           fs_found st' = (if htype h = ucast dns_rdatatype_cname then Some h else fs_found st)"
proof (cases "fs_maybe_zonecut st \<and> htype h = ucast dns_rdatatype_ns")
  case False
  then have e: "find_header node T True h st = find_match T True h (st\<lparr>fs_empty_node := False\<rparr>)"
    by (auto simp: find_header_def Let_def)
  have "s_version (fs_search (st\<lparr>fs_empty_node := False\<rparr>)) = s_version (fs_search st)"
    "fs_found (st\<lparr>fs_empty_node := False\<rparr>) = fs_found st"
    by simp_all
  from find_match_cname_step [OF assms(1,2,4) this]
  show ?thesis unfolding e .
next
  case True
  define st1 where "st1 = st\<lparr>fs_empty_node := False,
       fs_search := (fs_search st)\<lparr>zonecut := Some node, zonecut_header := Some h,
                                   zonecut_sigheader := None, need_cleanup := True\<rparr>,
       fs_maybe_zonecut := False, fs_at_zonecut := True\<rparr>"
  have f1: "s_version (fs_search st1) = s_version (fs_search st)" "fs_found st1 = fs_found st"
    by (simp_all add: st1_def)
  from True assms(3) have g: "DNS_DBFIND_GLUEOK \<in> s_options (fs_search st)" by simp
  from True have nc: "htype h \<noteq> ucast dns_rdatatype_cname"
    using types_distinct_cname(1) by simp
  let ?B = "fs_found st \<noteq> None \<and> fs_foundsig st \<noteq> None"
  have fh2: "find_header node T True h st = Inr (Break st1)" if "?B"
    using True g that by (auto simp: find_header_def Let_def st1_def)
  have fh3: "find_header node T True h st = find_match T True h st1" if "\<not> ?B"
    using True g that by (auto simp: find_header_def Let_def st1_def)
  show ?thesis
  proof (cases ?B)
    case True
    with fh2 [OF True] f1 nc show ?thesis by auto
  next
    case False
    from find_match_cname_step [OF assms(1,2,4) f1]
    show ?thesis unfolding fh3 [OF False] .
  qed
qed


lemma find_loop_cname:
  assumes "chain_ok chain" and "T \<noteq> dns_rdatatype_any"
    and "find_at_serial (s_serial (fs_search st)) (ucast T) chain = None"
    and "fs_maybe_zonecut st \<and>
         find_at_serial (s_serial (fs_search st)) (ucast dns_rdatatype_ns) chain \<noteq> None \<longrightarrow>
           DNS_DBFIND_GLUEOK \<in> s_options (fs_search st)"
    and "\<forall>h. find_at_serial (s_serial (fs_search st)) (ucast dns_rdatatype_nsec3) chain = Some h \<longrightarrow>
           matchparams_rdata (s_version (fs_search st)) (raw h) = Inr True"
    and "(fs_found st = None \<and>
          find_at_serial (s_serial (fs_search st)) (ucast dns_rdatatype_cname) chain = Some c) \<or>
         (fs_found st = Some c \<and>
          find_at_serial (s_serial (fs_search st)) (ucast dns_rdatatype_cname) chain = None)"
  shows "\<exists>st'. find_loop node T True chain st = Inr (Scan_end st') \<and> fs_found st' = Some c"
  using assms
proof (induction chain arbitrary: st)
  case Nil
  then show ?case by (simp add: find_at_serial_def)
next
  case (Cons stack rest)
  let ?s = "s_serial (fs_search st)"
  let ?cn = "ucast dns_rdatatype_cname :: typepair"
  from chain_ok_Cons [OF Cons.prems(1)] have ok: "stack_ok stack" "chain_ok rest"
    and dist: "\<forall>x \<in> set rest. stack_type x \<noteq> stack_type stack" by blast+
  have rest_some: "find_at_serial ?s t (stack # rest) = Some h" if "find_at_serial ?s t rest = Some h"
    for t h using find_at_serial_rest [OF Cons.prems(1) that] .
  have rest_none: "find_at_serial ?s t rest = None" if "find_at_serial ?s t (stack # rest) = None"
    for t using rest_some [of t] that by (cases "find_at_serial ?s t rest") auto
  have p3: "find_at_serial ?s (ucast T) rest = None" using Cons.prems(3) by (rule rest_none)
  have p4: "fs_maybe_zonecut st \<and> find_at_serial ?s (ucast dns_rdatatype_ns) rest \<noteq> None \<longrightarrow>
           DNS_DBFIND_GLUEOK \<in> s_options (fs_search st)"
    using Cons.prems(4) rest_some [of "ucast dns_rdatatype_ns"] by auto
  have p5: "\<forall>h. find_at_serial ?s (ucast dns_rdatatype_nsec3) rest = Some h \<longrightarrow>
           matchparams_rdata (s_version (fs_search st)) (raw h) = Inr True"
    using Cons.prems(5) rest_some [of "ucast dns_rdatatype_nsec3"] by auto
  show ?case
  proof (cases "active_version ?s stack")
    case None
    have loop: "find_loop node T True (stack # rest) st = find_loop node T True rest st"
      using None by simp
    have nc: "find_at_serial ?s ?cn (stack # rest) = Some c \<Longrightarrow> find_at_serial ?s ?cn rest = Some c"
      using None by (simp add: find_at_serial_Cons split: if_splits)
    have p6: "(fs_found st = None \<and> find_at_serial ?s ?cn rest = Some c) \<or>
              (fs_found st = Some c \<and> find_at_serial ?s ?cn rest = None)"
      using Cons.prems(6) nc rest_none [of ?cn] by auto
    from Cons.IH [OF ok(2) Cons.prems(2) p3 p4 p5 p6] show ?thesis unfolding loop .
  next
    case (Some h)
    have fa: "find_at_serial ?s (htype h) (stack # rest) = Some h"
      using Cons.prems(1) Some by (rule find_at_serial_active)
    have sty: "stack_type stack = Some (htype h)"
      using ok(1) Some by (rule active_version_type)
    have nT: "htype h \<noteq> ucast T" using fa Cons.prems(3) by auto
    have zs: "fs_maybe_zonecut st \<and> htype h = ucast dns_rdatatype_ns \<longrightarrow>
           DNS_DBFIND_GLUEOK \<in> s_options (fs_search st)"
      using fa Cons.prems(4) by auto
    have n3: "htype h = ucast dns_rdatatype_nsec3 \<longrightarrow>
           matchparams_rdata (s_version (fs_search st)) (raw h) = Inr True"
      using fa Cons.prems(5) by auto
    from find_header_cname_step [OF nT Cons.prems(2) zs n3, of node] obtain st' where
      r: "find_header node T True h st = Inr (Continue st') \<or>
          (find_header node T True h st = Inr (Break st') \<and> fs_found st' \<noteq> None)"
      and f: "fs_found st' = (if htype h = ?cn then Some h else fs_found st)"
      by blast
    have q6: "(fs_found st' = None \<and> find_at_serial ?s ?cn rest = Some c) \<or>
              (fs_found st' = Some c \<and> find_at_serial ?s ?cn rest = None)"
    proof (cases "htype h = ?cn")
      case True
      with fa Cons.prems(6) have "h = c" by auto
      moreover from True sty dist have "find_at_serial ?s ?cn rest = None"
        by (intro find_at_serial_none) simp
      ultimately show ?thesis using f True by simp
    next
      case False
      with sty have "find_at_serial ?s ?cn (stack # rest) = find_at_serial ?s ?cn rest"
        by (simp add: find_at_serial_Cons)
      with Cons.prems(6) f False show ?thesis by simp
    qed
    from r show ?thesis
    proof
      assume c: "find_header node T True h st = Inr (Continue st')"
      then have loop: "find_loop node T True (stack # rest) st = find_loop node T True rest st'"
        using Some by simp
      from find_header_inv [OF c] have inv: "step_inv node st st'" by simp
      then have e: "s_serial (fs_search st') = ?s"
        "s_options (fs_search st') = s_options (fs_search st)"
        "s_version (fs_search st') = s_version (fs_search st)"
        "fs_maybe_zonecut st' \<longrightarrow> fs_maybe_zonecut st"
        by (simp_all add: step_inv_def)
      have "\<exists>st''. find_loop node T True rest st' = Inr (Scan_end st'') \<and> fs_found st'' = Some c"
        using ok(2) Cons.prems(2) p3 p4 p5 q6 unfolding e(1,2,3) [symmetric]
        by (intro Cons.IH) (use e in auto)
      then show ?thesis unfolding loop .
    next
      assume b: "find_header node T True h st = Inr (Break st') \<and> fs_found st' \<noteq> None"
      then have loop: "find_loop node T True (stack # rest) st = Inr (Scan_end st')"
        using Some by simp
      from b q6 have "fs_found st' = Some c" by auto
      with loop show ?thesis by simp
    qed
  qed
qed


lemma setup_delegation_result:
  "setup_delegation search args out = Inr (r, out', search') \<Longrightarrow>
     r = DNS_R_DNAME \<or> r = DNS_R_DELEGATION"
  by (auto simp: setup_delegation_def Let_def split: option.splits if_splits)

lemma key_nsec_not_any:
  "dns_rdatatype_key \<noteq> dns_rdatatype_any" "dns_rdatatype_nsec \<noteq> dns_rdatatype_any"
  by (simp_all add: dns_rdatatype_key_def dns_rdatatype_nsec_def dns_rdatatype_any_def)

lemma zone_find_found_not_cname:
  assumes "zone_find_found db search node T is_wild args out = Inr (Finished r out' search')"
    and "\<forall>st f. zone_find_scan db search node T = Inr (Scan_end st) \<and> fs_found st = Some f \<longrightarrow>
           htype f = ucast T"
  shows "r \<noteq> DNS_R_CNAME"
proof (cases "zone_find_scan db search node T")
  case (Inl e)
  with assms(1) show ?thesis by (simp add: zone_find_found_def)
next
  case (Inr x)
  show ?thesis
  proof (cases x)
    case (Scan_partial_match st)
    with Inr assms(1) show ?thesis by (simp add: zone_find_found_def)
  next
    case (Scan_end st)
    show ?thesis
    proof (cases "fs_found st")
      case None
      with Inr Scan_end assms(1) setup_delegation_result [of "fs_search st" args out]
      show ?thesis
        by (auto simp: zone_find_found_def Let_def split: if_splits sum.splits)
    next
      case (Some f)
      with Inr Scan_end assms(2) have "htype f = ucast T" by simp
      then have "find_result node T f (fs_search st) \<noteq> DNS_R_CNAME"
        by (simp add: find_result_def)
      with Inr Scan_end Some assms(1) show ?thesis
        by (auto simp: zone_find_found_def Let_def split: if_splits)
    qed
  qed
qed


lemmas ex_simps =
  ex_zone_def ex_db_def mk_node_def ex_hdr_def mk_header_def ex_search_def ex_search_glue_def
  ex_args_def ex_out_def ex_version_def ex_iter_def
  dns_rdatatype_a_def dns_rdatatype_ns_def dns_rdatatype_cname_def dns_rdatatype_key_def
  dns_rdatatype_nsec_def dns_rdatatype_nsec3_def dns_rdatatype_any_def dns_rdatatype_ds_def
  dns_rdatatype_rrsig_def dns_rdatatype_dname_def
  DNS_SIGTYPE_def DNS_TYPEPAIR_VALUE_def dns_rdatatype_atparent_def
  IGNORE_def NONEXISTENT_def

section \<open>Properties of the loader\<close>

lemma no_header_added_refl: "no_header_added db db"
  by (auto simp: no_header_added_def)

lemma no_header_added_trans:
  "no_header_added a b \<Longrightarrow> no_header_added b c \<Longrightarrow> no_header_added a c"
  unfolding no_header_added_def by (auto split: if_splits)

lemma no_header_added_update:
  assumes "\<And>nd. data (f nd) = data nd"
  shows "no_header_added db (update_node db p f)"
  using assms by (auto simp: no_header_added_def update_node_def)

lemma no_header_added_create:
  "dns_qpdata_create x db nm = (p, db') \<Longrightarrow> no_header_added db db'"
  by (auto simp: no_header_added_def dns_qpdata_create_def)

lemma no_header_added_tree: "no_header_added db (db\<lparr>tree := t\<rparr>)"
  by (auto simp: no_header_added_def)

lemma dns_qp_insert_new:
  "dns_qp_getname t nm = None \<Longrightarrow> dns_qp_insert t nm p = (ISC_R_SUCCESS, qp_place (nm, p) t)"
  by (simp add: dns_qp_getname_def dns_qp_insert_def)

lemma create_tree: "dns_qpdata_create x db nm = (p, db') \<Longrightarrow> tree db' = tree db"
  by (auto simp: dns_qpdata_create_def)

lemma wildcardmagic_ok:
  assumes "2 \<le> length nm"
  shows "\<exists>db'. dns__qpzone_wildcardmagic x db nm = Inr (ISC_R_SUCCESS, db') \<and>
               no_header_added db db'"
proof (cases "dns_qp_getname (tree db) (dns_name_getlabelsequence nm 1 (length nm - 1))")
  case (Some node)
  then show ?thesis
    using assms
    by (simp add: dns__qpzone_wildcardmagic_def dns_name_countlabels_def Let_def
        no_header_added_update)
next
  case None
  obtain p db1 where c: "dns_qpdata_create x db (dns_name_getlabelsequence nm 1 (length nm - 1)) = (p, db1)"
    by (cases "dns_qpdata_create x db (dns_name_getlabelsequence nm 1 (length nm - 1))")
  have t: "tree db1 = tree db" using c by (rule create_tree)
  have i: "dns_qp_insert (tree db1) (dns_name_getlabelsequence nm 1 (length nm - 1)) p =
        (ISC_R_SUCCESS, qp_place (dns_name_getlabelsequence nm 1 (length nm - 1), p) (tree db))"
    using None by (simp add: t dns_qp_insert_new)
  have n1: "no_header_added db db1" using c by (rule no_header_added_create)
  have n2: "no_header_added db1
      (update_node (db1\<lparr>tree := qp_place (dns_name_getlabelsequence nm 1 (length nm - 1), p) (tree db)\<rparr>) p
         (\<lambda>nd. nd\<lparr>nsec := DNS_DB_NSEC_NORMAL, find_callback := True, wild := True\<rparr>))"
    by (rule no_header_added_trans [OF no_header_added_tree no_header_added_update]) simp
  show ?thesis
    using assms None c i no_header_added_trans [OF n1 n2]
    by (simp add: dns__qpzone_wildcardmagic_def dns_name_countlabels_def Let_def)
qed

lemma addwildcards_loop_ok:
  "2 \<le> i \<Longrightarrow> n = length nm \<Longrightarrow>
   \<exists>db'. addwildcards_loop x nm n i db = Inr (ISC_R_SUCCESS, db') \<and> no_header_added db db'"
proof (induction x nm n i db rule: addwildcards_loop.induct)
  case (1 x nm n i db)
  let ?f = "dns_name_getlabelsequence nm (n - i) i"
  show ?case
  proof (cases "i < n")
    case False
    then show ?thesis
      by (subst addwildcards_loop.simps) (simp add: no_header_added_refl)
  next
    case lt: True
    show ?thesis
    proof (cases "dns_name_iswildcard ?f")
      case False
      with lt 1 show ?thesis
        by (subst addwildcards_loop.simps) simp
    next
      case w: True
      have len: "2 \<le> length ?f"
        using lt 1(4,5) by (simp add: dns_name_getlabelsequence_def)
      obtain db1 where m: "dns__qpzone_wildcardmagic x db ?f = Inr (ISC_R_SUCCESS, db1)"
        and n1: "no_header_added db db1"
        using wildcardmagic_ok [OF len] by blast
      have ns: "\<not> ISC_R_SUCCESS \<noteq> ISC_R_SUCCESS" by simp
      show ?thesis
      proof (cases "dns_qp_getname (tree db1) nm")
        case (Some node)
        let ?db2 = "update_node db1 node (\<lambda>nd. nd\<lparr>nsec := DNS_DB_NSEC_NORMAL\<rparr>)"
        have "\<exists>db'. addwildcards_loop x nm n (i + 1) ?db2 = Inr (ISC_R_SUCCESS, db') \<and>
                no_header_added ?db2 db'"
          using 1(2) [OF lt w m refl ns Some] 1(4,5) by simp
        then obtain db' where r: "addwildcards_loop x nm n (i + 1) ?db2 = Inr (ISC_R_SUCCESS, db')"
          and n3: "no_header_added ?db2 db'" by blast
        have n2: "no_header_added db1 ?db2" by (rule no_header_added_update) simp
        have "no_header_added db db'"
          by (rule no_header_added_trans [OF n1 no_header_added_trans [OF n2 n3]])
        then show ?thesis
          using lt w m Some r by (subst addwildcards_loop.simps) simp
      next
        case None
        obtain p db2 where c: "dns_qpdata_create x db1 nm = (p, db2)"
          by (cases "dns_qpdata_create x db1 nm")
        have t: "tree db2 = tree db1" using c by (rule create_tree)
        have ins: "dns_qp_insert (tree db2) nm p = (ISC_R_SUCCESS, qp_place (nm, p) (tree db1))"
          using None by (simp add: t dns_qp_insert_new)
        let ?db3 = "update_node (db2\<lparr>tree := qp_place (nm, p) (tree db1)\<rparr>) p
                      (\<lambda>nd. nd\<lparr>nsec := DNS_DB_NSEC_NORMAL\<rparr>)"
        have "\<exists>db'. addwildcards_loop x nm n (i + 1) ?db3 = Inr (ISC_R_SUCCESS, db') \<and>
                no_header_added ?db3 db'"
          using 1(1) [OF lt w m refl ns None c [symmetric] ins [symmetric] ns] 1(4,5)
          by simp
        then obtain db' where r: "addwildcards_loop x nm n (i + 1) ?db3 = Inr (ISC_R_SUCCESS, db')"
          and n4: "no_header_added ?db3 db'" by blast
        have n2: "no_header_added db1 db2" using c by (rule no_header_added_create)
        have n3: "no_header_added db2 ?db3"
          by (rule no_header_added_trans [OF no_header_added_tree no_header_added_update]) simp
        have "no_header_added db db'"
          by (rule no_header_added_trans [OF n1
                no_header_added_trans [OF n2 no_header_added_trans [OF n3 n4]]])
        then show ?thesis
          using lt w m None c ins r by (subst addwildcards_loop.simps) simp
      qed
    qed
  qed
qed


lemma ex_load_ns:
  "\<exists>db'. loading_addrdataset ex_externals ex_zone 0 [''*'', ''*'', ''example'', []]
           (ex_rdataset dns_rdatatype_ns) = Inr (DNS_R_INVALIDNS, db') \<and>
         next_node db' = 7 \<and> wild (nodes db' 0) \<and>
         name (nodes db' 6) = [''*'', ''*'', ''example'', []]"
  by (simp add: loading_addrdataset_def dns__qpzone_addwildcards_def dns_name_countlabels_def
      ex_zone_def ex_db_def ex_rdataset_def ex_externals_def mk_node_def
      dns_name_getlabelsequence_def dns_name_iswildcard_def dns__qpzone_wildcardmagic_def Let_def
      dns_qp_getname_def dns_qpdata_create_def dns_qp_insert_def update_node_def
      dns_name_before_def dns_name_equal_def
      dns_rdatatype_ns_def dns_rdatatype_soa_def dns_rdatatype_nsec3_def)




section \<open>Properties of the wildcard search\<close>







section \<open>The claims\<close>

text \<open>
  C1. For a node whose header chain keeps its invariants, a type other than ANY and a
  version of this database, \<open>zone_findrdataset\<close> finds what the find primitive of the
  specification finds at the version's serial for the type pair \<open>(type, covers)\<close>:
  when the primitive finds nothing (no header of the type, no header visible at the
  serial, or the visible header is \<open>NONEXISTENT\<close>) the call returns
  \<open>ISC_R_NOTFOUND\<close> and binds neither output; otherwise the header found is the one
  bound into \<open>rdataset\<close> and the call returns \<open>ISC_R_SUCCESS\<close>.
\<close>

theorem zone_findrdataset_find_at_serial:
  assumes "type \<noteq> dns_rdatatype_any"
    and "version = None \<or> map_option vqpdb version = Some (dbid db)"
    and "chain_ok (data (nodes db node))"
  shows "\<exists>sigbound. zone_findrdataset db node version type covers =
     Inr (case find_at_serial (vserial (case version of None \<Rightarrow> current_version db | Some v \<Rightarrow> v))
                 (DNS_TYPEPAIR_VALUE type covers) (data (nodes db node)) of
            None \<Rightarrow> (ISC_R_NOTFOUND, None, None)
          | Some h \<Rightarrow> (ISC_R_SUCCESS, Some h, sigbound))"
proof -
  let ?s = "vserial (case version of None \<Rightarrow> current_version db | Some v \<Rightarrow> v)"
  let ?m = "DNS_TYPEPAIR_VALUE type covers"
  let ?sm = "if covers = 0 then DNS_SIGTYPE type else 0"
  let ?chain = "data (nodes db node)"
  obtain found foundsig where scan: "findrdataset_scan ?s ?m ?sm ?chain None None = (found, foundsig)"
    by (cases "findrdataset_scan ?s ?m ?sm ?chain None None") auto
  have "fst (findrdataset_scan ?s ?m ?sm ?chain None None) = find_at_serial ?s ?m ?chain"
    using scan_found [OF assms(3), of None ?m ?s ?sm None]
    by (cases "find_at_serial ?s ?m ?chain") simp_all
  with scan have found: "found = find_at_serial ?s ?m ?chain" by simp
  from assms(1,2) scan found show ?thesis
    by (cases "find_at_serial ?s ?m ?chain") (auto simp: zone_findrdataset_def Let_def)
qed

theorem zone_findrdataset_find_at_serial_witness:
  "dns_rdatatype_a \<noteq> dns_rdatatype_any \<and> chain_ok (data (nodes ex_db 1)) \<and>
   find_at_serial 2 1 ex_www_data = Some (mk_header 1 2 {} [2]) \<and>
   (\<exists>sigbound. zone_findrdataset ex_db 1 None dns_rdatatype_a 0 =
      Inr (ISC_R_SUCCESS, Some (mk_header 1 2 {} [2]), sigbound))"
proof -
  have a: "dns_rdatatype_a \<noteq> dns_rdatatype_any"
    by (simp add: dns_rdatatype_a_def dns_rdatatype_any_def)
  have c: "chain_ok (data (nodes ex_db 1))"
    by (simp add: chain_ok_def stack_ok_def stack_type_def ex_db_def mk_node_def ex_www_data_def
        mk_header_def)
  have f: "find_at_serial 2 1 ex_www_data = Some (mk_header 1 2 {} [2])"
    by (simp add: find_at_serial_def stack_type_def ex_www_data_def mk_header_def IGNORE_def
        NONEXISTENT_def)
  have v: "vserial (current_version ex_db) = 2" "data (nodes ex_db 1) = ex_www_data"
    by (simp_all add: ex_db_def ex_version_def mk_node_def)
  have t: "DNS_TYPEPAIR_VALUE dns_rdatatype_a 0 = 1"
    by (simp add: DNS_TYPEPAIR_VALUE_def dns_rdatatype_a_def)
  from zone_findrdataset_find_at_serial [OF a _ c, of None 0] a c f v t show ?thesis
    by simp
qed

text \<open>
  C10. On a version of this database whose \<open>havensec3\<close> flag is false (the current
  version when the version argument is \<open>NULL\<close>), \<open>getnsec3parameters\<close> returns
  \<open>ISC_R_NOTFOUND\<close> and leaves every output location as it was.
\<close>

theorem getnsec3parameters_notfound:
  assumes "version = None \<or> map_option vqpdb version = Some (dbid db)"
    and "\<not> havensec3 (case version of None \<Rightarrow> current_version db | Some v \<Rightarrow> v)"
  shows "getnsec3parameters db version out = Inr (ISC_R_NOTFOUND, out)"
  using assms by (auto simp: getnsec3parameters_def Let_def)

theorem getnsec3parameters_notfound_witness:
  "\<not> havensec3 (current_version ex_db) \<and>
   getnsec3parameters ex_db None
     \<lparr> out_hash = Some 9, out_flags = Some 9, out_iterations = Some 9, out_salt = Some [9, 9, 9],
       out_salt_length = Some 3 \<rparr> =
   Inr (ISC_R_NOTFOUND,
     \<lparr> out_hash = Some 9, out_flags = Some 9, out_iterations = Some 9, out_salt = Some [9, 9, 9],
       out_salt_length = Some 3 \<rparr>)"
proof -
  have h: "\<not> havensec3 (case None of None \<Rightarrow> current_version ex_db | Some v \<Rightarrow> v)"
    by (simp add: ex_db_def ex_version_def)
  from getnsec3parameters_notfound [OF _ h] h show ?thesis by simp
qed







text \<open>
  C8. The claim counts a header as waiting to be resigned when it carries \<open>RESIGN\<close>;
  \<open>getsigningtime\<close> reads the heaps only, and a header taken off its heap by
  \<open>setsigningtime\<close> with \<open>resign = 0\<close> still carries \<open>RESIGN\<close>: with that header in
  the database and every heap empty the call returns \<open>ISC_R_NOTFOUND\<close>.
\<close>

theorem getsigningtime_RESIGN_not_in_heap:
  "setsigningtime ex_time64 ex_db_before ex_rrsig 0 =
     Inr (ISC_R_SUCCESS, ex_rrsig\<lparr>heap_index := 0, heap := None\<rparr>, [Heap_delete 0 1]) \<and>
   data (nodes ex_db_after 1) = [[ex_rrsig\<lparr>heap_index := 0, heap := None\<rparr>]] \<and>
   RESIGN (ex_rrsig\<lparr>heap_index := 0, heap := None\<rparr>) \<and>
   heaps ex_db_after = [[]] \<and>
   getsigningtime ex_db_after None = (ISC_R_NOTFOUND, None, None)"
  by (simp add: setsigningtime_def ex_rrsig_def mk_header_def RESIGN_def ex_db_def ex_db_before_def
      ex_db_after_def QPDB_HEADERNODE_def mk_node_def Let_def getsigningtime_def
      isc_heap_element_def)

text \<open>
  C8, amended. When \<open>sooner\<close> is a strict weak order and no element of a heap is
  sooner than its element 1: if some resign heap is non-empty, \<open>getsigningtime\<close>
  returns \<open>ISC_R_SUCCESS\<close> and binds the record set and (when \<open>foundname\<close> is given)
  the owner name of a header that no header of any heap is sooner than; it is element 1
  of the first bucket in scan order holding such a header. If every heap is empty it
  returns \<open>ISC_R_NOTFOUND\<close> and binds nothing.
\<close>

theorem getsigningtime_earliest:
  assumes "sooner_order (sooner db)"
    and "\<forall>h \<in> set (take (node_lock_count db) (heaps db)). heap_top_first (sooner db) h"
  shows "((\<exists>h \<in> set (take (node_lock_count db) (heaps db)). h \<noteq> []) \<longrightarrow>
            (\<exists>w k. getsigningtime db foundname =
                      (ISC_R_SUCCESS, Some w,
                       map_option (\<lambda>_. name (QPDB_HEADERNODE db w)) foundname) \<and>
                    first_min (sooner db) (take (node_lock_count db) (heaps db)) w k \<and>
                    (\<forall>h \<in> set (take (node_lock_count db) (heaps db)). \<forall>x \<in> set h.
                        \<not> sooner db x w))) \<and>
         ((\<forall>h \<in> set (take (node_lock_count db) (heaps db)). h = []) \<longrightarrow>
            getsigningtime db foundname = (ISC_R_NOTFOUND, None, foundname))"
proof (intro conjI impI)
  let ?hs = "take (node_lock_count db) (heaps db)"
  assume ne: "\<exists>h \<in> set ?hs. h \<noteq> []"
  from scan_some [OF assms(1) assms(2), of None 0] ne
  obtain w k where r: "getsigningtime_scan (sooner db) ?hs 0 None = Some (w, k)"
    and m: "\<forall>h \<in> set ?hs. \<forall>x \<in> set h. \<not> sooner db x w"
    and f: "first_min (sooner db) ?hs w k"
    by auto
  have "getsigningtime db foundname =
          (ISC_R_SUCCESS, Some w, map_option (\<lambda>_. name (QPDB_HEADERNODE db w)) foundname)"
    using r by (cases foundname) (simp_all add: getsigningtime_def)
  with m f show "\<exists>w k. getsigningtime db foundname =
                      (ISC_R_SUCCESS, Some w,
                       map_option (\<lambda>_. name (QPDB_HEADERNODE db w)) foundname) \<and>
                    first_min (sooner db) ?hs w k \<and>
                    (\<forall>h \<in> set ?hs. \<forall>x \<in> set h. \<not> sooner db x w)"
    by blast
next
  assume "\<forall>h \<in> set (take (node_lock_count db) (heaps db)). h = []"
  then show "getsigningtime db foundname = (ISC_R_NOTFOUND, None, foundname)"
    by (simp add: getsigningtime_def scan_none)
qed

theorem getsigningtime_earliest_witness:
  "sooner_order (sooner ex_db_heaps) \<and>
   (\<exists>w k. getsigningtime ex_db_heaps (Some []) =
             (ISC_R_SUCCESS, Some w, map_option (\<lambda>_. name (QPDB_HEADERNODE ex_db_heaps w)) (Some ([] :: dns_name))) \<and>
           first_min (sooner ex_db_heaps) (take (node_lock_count ex_db_heaps) (heaps ex_db_heaps)) w k) \<and>
   getsigningtime ex_db_heaps (Some []) =
     (ISC_R_SUCCESS, Some (ex_keyed 300 0 1), Some [''www'', ''example'', []]) \<and>
   getsigningtime ex_db None = (ISC_R_NOTFOUND, None, None)"
proof -
  have o: "sooner_order (sooner ex_db_heaps)"
    using resign_sooner_order by (simp add: ex_db_heaps_def ex_db_def)
  have t: "\<forall>h \<in> set (take (node_lock_count ex_db_heaps) (heaps ex_db_heaps)).
             heap_top_first (sooner ex_db_heaps) h"
    by (simp add: ex_db_heaps_def ex_db_def heap_top_first_def resign_sooner_def ex_keyed_def)
  have n: "\<exists>h \<in> set (take (node_lock_count ex_db_heaps) (heaps ex_db_heaps)). h \<noteq> []"
    by (simp add: ex_db_heaps_def)
  have o': "sooner_order (sooner ex_db)"
    using resign_sooner_order by (simp add: ex_db_def)
  have t': "\<forall>h \<in> set (take (node_lock_count ex_db) (heaps ex_db)). heap_top_first (sooner ex_db) h"
    by (simp add: ex_db_def heap_top_first_def)
  have e: "\<forall>h \<in> set (take (node_lock_count ex_db) (heaps ex_db)). h = []"
    by (simp add: ex_db_def)
  have c: "getsigningtime ex_db_heaps (Some []) =
     (ISC_R_SUCCESS, Some (ex_keyed 300 0 1), Some [''www'', ''example'', []])"
    by (simp add: getsigningtime_def ex_db_heaps_def ex_db_def isc_heap_element_def
        resign_sooner_def ex_keyed_def QPDB_HEADERNODE_def mk_header_def mk_node_def)
  from getsigningtime_earliest [OF o t, of "Some []", THEN conjunct1, THEN mp, OF n]
  have x: "\<exists>w k. getsigningtime ex_db_heaps (Some []) =
             (ISC_R_SUCCESS, Some w, map_option (\<lambda>_. name (QPDB_HEADERNODE ex_db_heaps w)) (Some ([] :: dns_name))) \<and>
           first_min (sooner ex_db_heaps) (take (node_lock_count ex_db_heaps) (heaps ex_db_heaps)) w k"
    apply (elim exE conjE)
    apply (intro exI conjI)
     apply assumption
    apply assumption
    done
  from getsigningtime_earliest [OF o' t', of None, THEN conjunct2, THEN mp, OF e]
  have y: "getsigningtime ex_db None = (ISC_R_NOTFOUND, None, None)" .
  from o x c y show ?thesis by (intro conjI)
qed

text \<open>
  C2. At a node that \<open>check_zonecut\<close> examines (no zonecut is recorded yet) and whose
  header chain keeps its invariants: if the database is not a stub, the node is not the
  origin and an NS header is active at the search serial, that NS header becomes the
  zonecut header and \<open>setup_delegation\<close> answers \<open>DNS_R_DELEGATION\<close>; if no NS is
  selected that way and a DNAME header is active, the DNAME header becomes the zonecut
  header, with its RRSIG, and the answer is \<open>DNS_R_DNAME\<close>; at the origin of a
  database that is not a stub an active NS is not recorded: the zonecut header can only
  be the DNAME, and without one the search goes on with no zonecut.
\<close>

theorem check_zonecut_precedence:
  assumes "zonecut search = None" and "chain_ok (data (nodes db node))"
  shows
    "(\<not> is_stub db \<and> node \<noteq> origin_node db \<and>
      find_at_serial (s_serial search) (ucast dns_rdatatype_ns) (data (nodes db node)) = Some h \<longrightarrow>
        zonecut (snd (check_zonecut db node search)) = Some node \<and>
        zonecut_header (snd (check_zonecut db node search)) = Some h \<and>
        (\<exists>out' search'. setup_delegation (snd (check_zonecut db node search)) args out =
           Inr (DNS_R_DELEGATION, out', search'))) \<and>
     ((is_stub db \<or> node = origin_node db \<or>
       find_at_serial (s_serial search) (ucast dns_rdatatype_ns) (data (nodes db node)) = None) \<and>
      find_at_serial (s_serial search) (ucast dns_rdatatype_dname) (data (nodes db node)) = Some d \<longrightarrow>
        zonecut (snd (check_zonecut db node search)) = Some node \<and>
        zonecut_header (snd (check_zonecut db node search)) = Some d \<and>
        zonecut_sigheader (snd (check_zonecut db node search)) =
          find_at_serial (s_serial search) (DNS_SIGTYPE dns_rdatatype_dname) (data (nodes db node)) \<and>
        (\<exists>out' search'. setup_delegation (snd (check_zonecut db node search)) args out =
           Inr (DNS_R_DNAME, out', search'))) \<and>
     (\<not> is_stub db \<and> node = origin_node db \<longrightarrow>
        zonecut_header (snd (check_zonecut db node search)) =
          (case find_at_serial (s_serial search) (ucast dns_rdatatype_dname) (data (nodes db node)) of
             None \<Rightarrow> zonecut_header search | Some dh \<Rightarrow> Some dh) \<and>
        (find_at_serial (s_serial search) (ucast dns_rdatatype_dname) (data (nodes db node)) = None \<longrightarrow>
           check_zonecut db node search =
             (DNS_R_CONTINUE,
              if wild (nodes db node) \<and> DNS_DBFIND_NOWILD \<notin> s_options search
              then search\<lparr>s_wild := True\<rparr> else search)))"
proof (intro conjI impI)
  let ?ns = "find_at_serial (s_serial search) (ucast dns_rdatatype_ns) (data (nodes db node))"
  let ?dn = "find_at_serial (s_serial search) (ucast dns_rdatatype_dname) (data (nodes db node))"
  note scan = check_zonecut_scan_node [OF assms(2)]
  {
    assume a: "\<not> is_stub db \<and> node \<noteq> origin_node db \<and> ?ns = Some h"
    have t: "htype h \<noteq> ucast dns_rdatatype_dname"
      using find_at_serial_type [OF assms(2), of "s_serial search" _ h] a zonecut_types_distinct(1)
      by auto
    show "zonecut (snd (check_zonecut db node search)) = Some node"
      using a assms(1) by (simp add: check_zonecut_def scan Let_def)
    show "zonecut_header (snd (check_zonecut db node search)) = Some h"
      using a assms(1) by (simp add: check_zonecut_def scan Let_def)
    show "\<exists>out' search'. setup_delegation (snd (check_zonecut db node search)) args out =
           Inr (DNS_R_DELEGATION, out', search')"
      using a assms(1) t by (simp add: check_zonecut_def scan Let_def setup_delegation_def)
  }
  {
    assume a: "(is_stub db \<or> node = origin_node db \<or> ?ns = None) \<and> ?dn = Some d"
    have t: "htype d = ucast dns_rdatatype_dname"
      using find_at_serial_type [OF assms(2), of "s_serial search" _ d] a by auto
    show "zonecut (snd (check_zonecut db node search)) = Some node"
      using a assms(1) by (auto simp: check_zonecut_def scan Let_def)
    show "zonecut_header (snd (check_zonecut db node search)) = Some d"
      using a assms(1) by (auto simp: check_zonecut_def scan Let_def)
    show "zonecut_sigheader (snd (check_zonecut db node search)) =
          find_at_serial (s_serial search) (DNS_SIGTYPE dns_rdatatype_dname) (data (nodes db node))"
      using a assms(1) by (auto simp: check_zonecut_def scan Let_def)
    show "\<exists>out' search'. setup_delegation (snd (check_zonecut db node search)) args out =
           Inr (DNS_R_DNAME, out', search')"
      using a assms(1) t by (auto simp: check_zonecut_def scan Let_def setup_delegation_def)
  }
  {
    assume a: "\<not> is_stub db \<and> node = origin_node db"
    show "zonecut_header (snd (check_zonecut db node search)) =
          (case ?dn of None \<Rightarrow> zonecut_header search | Some dh \<Rightarrow> Some dh)"
      using a assms
      by (cases ?dn) (simp_all add: check_zonecut_def check_zonecut_scan_node Let_def)
    assume "?dn = None"
    with a assms show "check_zonecut db node search =
             (DNS_R_CONTINUE,
              if wild (nodes db node) \<and> DNS_DBFIND_NOWILD \<notin> s_options search
              then search\<lparr>s_wild := True\<rparr> else search)"
      by (simp add: check_zonecut_def check_zonecut_scan_node Let_def)
  }
qed

theorem check_zonecut_precedence_witness:
  "zonecut_header (snd (check_zonecut ex_zone 2 ex_search)) = Some (ex_hdr 2 2 20) \<and>
   (\<exists>out' search'. setup_delegation (snd (check_zonecut ex_zone 2 ex_search)) ex_args ex_out =
      Inr (DNS_R_DELEGATION, out', search')) \<and>
   zonecut_header (snd (check_zonecut ex_zone 3 ex_search)) = Some (ex_hdr 3 39 30) \<and>
   (\<exists>out' search'. setup_delegation (snd (check_zonecut ex_zone 3 ex_search)) ex_args ex_out =
      Inr (DNS_R_DNAME, out', search')) \<and>
   check_zonecut ex_zone 0 ex_search = (DNS_R_CONTINUE, ex_search)"
proof -
  have z: "zonecut ex_search = None" by (simp add: ex_search_def)
  have f2: "\<not> is_stub ex_zone \<and> 2 \<noteq> origin_node ex_zone \<and>
            find_at_serial (s_serial ex_search) (ucast dns_rdatatype_ns) (data (nodes ex_zone 2)) =
              Some (ex_hdr 2 2 20)"
    by (simp add: ex_zone_def ex_db_def ex_search_def find_at_serial_def stack_type_def mk_node_def
        ex_hdr_def mk_header_def dns_rdatatype_ns_def IGNORE_def NONEXISTENT_def)
  have f3: "(is_stub ex_zone \<or> 3 = origin_node ex_zone \<or>
             find_at_serial (s_serial ex_search) (ucast dns_rdatatype_ns) (data (nodes ex_zone 3)) = None) \<and>
            find_at_serial (s_serial ex_search) (ucast dns_rdatatype_dname) (data (nodes ex_zone 3)) =
              Some (ex_hdr 3 39 30)"
    by (simp add: ex_zone_def ex_db_def ex_search_def find_at_serial_def stack_type_def mk_node_def
        ex_hdr_def mk_header_def dns_rdatatype_ns_def dns_rdatatype_dname_def IGNORE_def
        NONEXISTENT_def DNS_SIGTYPE_def DNS_TYPEPAIR_VALUE_def dns_rdatatype_rrsig_def)
  have f0: "\<not> is_stub ex_zone \<and> 0 = origin_node ex_zone"
    by (simp add: ex_zone_def ex_db_def)
  have d0: "find_at_serial (s_serial ex_search) (ucast dns_rdatatype_dname) (data (nodes ex_zone 0)) = None"
    by (simp add: ex_zone_def ex_db_def ex_search_def find_at_serial_def stack_type_def mk_node_def
        ex_hdr_def mk_header_def dns_rdatatype_dname_def)
  have w0: "\<not> wild (nodes ex_zone 0)" by (simp add: ex_zone_def mk_node_def)
  note t2 = check_zonecut_precedence [where search = ex_search and db = ex_zone and node = 2
      and h = "ex_hdr 2 2 20" and args = ex_args and out = ex_out, OF z ex_zone_chain_ok,
      THEN conjunct1, THEN mp, OF f2]
  note t3 = check_zonecut_precedence [where search = ex_search and db = ex_zone and node = 3
      and d = "ex_hdr 3 39 30" and args = ex_args and out = ex_out, OF z ex_zone_chain_ok, THEN conjunct2, THEN conjunct1, THEN mp, OF f3]
  note t0 = check_zonecut_precedence [where search = ex_search and db = ex_zone and node = 0,
      OF z ex_zone_chain_ok, THEN conjunct2,
      THEN conjunct2, THEN mp, OF f0, THEN conjunct2, THEN mp, OF d0]
  from t2 have a: "zonecut_header (snd (check_zonecut ex_zone 2 ex_search)) = Some (ex_hdr 2 2 20)"
    and b: "\<exists>out' search'. setup_delegation (snd (check_zonecut ex_zone 2 ex_search)) ex_args ex_out =
      Inr (DNS_R_DELEGATION, out', search')"
    by simp_all
  from t3 have c: "zonecut_header (snd (check_zonecut ex_zone 3 ex_search)) = Some (ex_hdr 3 39 30)"
    and d: "\<exists>out' search'. setup_delegation (snd (check_zonecut ex_zone 3 ex_search)) ex_args ex_out =
      Inr (DNS_R_DNAME, out', search')"
    by simp_all
  from t0 w0 have e: "check_zonecut ex_zone 0 ex_search = (DNS_R_CONTINUE, ex_search)"
    by simp
  from a b c d e show ?thesis by (intro conjI)
qed

text \<open>
  C3. The claim gives \<open>DNS_R_CNAME\<close> for every exact match that is not beneath a
  zone cut; the node can be a zone cut itself. At \<open>child.example.\<close>, with NS and
  CNAME and no A, searched for A without \<open>GLUEOK\<close> and with no zonecut above, the scan
  stops at the NS header and the delegation is returned.
\<close>

theorem zone_find_cname_at_delegation:
  "zonecut ex_search = None \<and>
   find_at_serial (s_serial ex_search) (ucast dns_rdatatype_cname) (data (nodes ex_zone 2)) =
     Some (ex_hdr 2 5 21) \<and>
   find_at_serial (s_serial ex_search) (ucast dns_rdatatype_a) (data (nodes ex_zone 2)) = None \<and>
   (\<exists>out' search'. zone_find_found ex_zone ex_search 2 dns_rdatatype_a False ex_args ex_out =
      Inr (Finished DNS_R_DELEGATION out' search'))"
  by (simp add: zone_find_found_def zone_find_scan_def find_header_def find_match_def
      find_maybe_zonecut_def find_cname_ok_def find_result_def setup_delegation_def
      find_at_serial_def stack_type_def Let_def ex_simps)

text \<open>
  C3, amended. For a node reached with no zonecut recorded, whose header chain keeps its
  invariants: if the type asked is none of CNAME, ANY, KEY and NSEC, a CNAME header is
  active at the search serial and no header of the type asked is, the scan is not stopped
  by a delegation at the node itself (the node is a zone cut candidate with an active NS
  header and \<open>GLUEOK\<close> is clear), and an active NSEC3 header matches the parameters of
  the version, then the result is \<open>DNS_R_CNAME\<close> with the CNAME header bound into
  \<open>rdataset\<close>. If the type asked is KEY or NSEC, the header the scan finds has the type
  asked, and no result is \<open>DNS_R_CNAME\<close>.
\<close>

theorem zone_find_cname_substitution:
  assumes "zonecut search = None" and "chain_ok (data (nodes db node))"
  shows
    "(T \<noteq> dns_rdatatype_cname \<and> T \<noteq> dns_rdatatype_any \<and> T \<noteq> dns_rdatatype_key \<and>
      T \<noteq> dns_rdatatype_nsec \<and>
      find_at_serial (s_serial search) (ucast dns_rdatatype_cname) (data (nodes db node)) = Some c \<and>
      find_at_serial (s_serial search) (ucast T) (data (nodes db node)) = None \<and>
      \<not> (find_maybe_zonecut db search node T \<and>
         find_at_serial (s_serial search) (ucast dns_rdatatype_ns) (data (nodes db node)) \<noteq> None \<and>
         DNS_DBFIND_GLUEOK \<notin> s_options search) \<and>
      (\<forall>h. find_at_serial (s_serial search) (ucast dns_rdatatype_nsec3) (data (nodes db node)) = Some h
           \<longrightarrow> matchparams h search = Inr True) \<longrightarrow>
        (\<exists>out' search'.
           zone_find_found db search node T is_wild args out =
             Inr (Finished DNS_R_CNAME out' search') \<and>
           (rdataset_given args \<longrightarrow> out_rdataset out' = Some c))) \<and>
     (T = dns_rdatatype_key \<or> T = dns_rdatatype_nsec \<longrightarrow>
        (\<forall>st f. zone_find_scan db search node T = Inr (Scan_end st) \<and> fs_found st = Some f \<longrightarrow>
                htype f = ucast T) \<and>
        (\<forall>r out' search'.
           zone_find_found db search node T is_wild args out = Inr (Finished r out' search') \<longrightarrow>
             r \<noteq> DNS_R_CNAME))"
proof (intro conjI impI)
  let ?chain = "data (nodes db node)"
  let ?s = "s_serial search"
  assume a: "T \<noteq> dns_rdatatype_cname \<and> T \<noteq> dns_rdatatype_any \<and> T \<noteq> dns_rdatatype_key \<and>
      T \<noteq> dns_rdatatype_nsec \<and>
      find_at_serial ?s (ucast dns_rdatatype_cname) ?chain = Some c \<and>
      find_at_serial ?s (ucast T) ?chain = None \<and>
      \<not> (find_maybe_zonecut db search node T \<and>
         find_at_serial ?s (ucast dns_rdatatype_ns) ?chain \<noteq> None \<and>
         DNS_DBFIND_GLUEOK \<notin> s_options search) \<and>
      (\<forall>h. find_at_serial ?s (ucast dns_rdatatype_nsec3) ?chain = Some h
           \<longrightarrow> matchparams h search = Inr True)"
  let ?st0 = "\<lparr> fs_search = search, fs_found = None, fs_foundsig = None, fs_nsecheader = None,
         fs_nsecsig = None, fs_cnamesig = None, fs_sigtype = DNS_SIGTYPE T,
         fs_empty_node = True, fs_maybe_zonecut = find_maybe_zonecut db search node T,
         fs_at_zonecut = False \<rparr>"
  have ck: "find_cname_ok search T" using a assms(1) by (simp add: find_cname_ok_def)
  have n3: "\<forall>h. find_at_serial (s_serial (fs_search ?st0)) (ucast dns_rdatatype_nsec3) ?chain = Some h
           \<longrightarrow> matchparams_rdata (s_version (fs_search ?st0)) (raw h) = Inr True"
  proof (intro allI impI)
    fix h assume h: "find_at_serial (s_serial (fs_search ?st0)) (ucast dns_rdatatype_nsec3) ?chain = Some h"
    then have "htype h = ucast dns_rdatatype_nsec3"
      using find_at_serial_type [OF assms(2)] by simp
    moreover from h a have "matchparams h search = Inr True" by simp
    ultimately show "matchparams_rdata (s_version (fs_search ?st0)) (raw h) = Inr True"
      by (simp add: matchparams_def)
  qed
  have "\<exists>st'. find_loop node T True ?chain ?st0 = Inr (Scan_end st') \<and> fs_found st' = Some c"
    using a n3 by (intro find_loop_cname [OF assms(2)]) auto
  then obtain st' where scan: "zone_find_scan db search node T = Inr (Scan_end st')"
    and f: "fs_found st' = Some c"
    using ck by (auto simp: zone_find_scan_def)
  from zone_find_scan_inv [OF scan] f have e: "\<not> fs_empty_node st'" by simp
  have tc: "htype c = ucast dns_rdatatype_cname"
    using find_at_serial_type [OF assms(2)] a by blast
  have "(ucast T :: typepair) \<noteq> ucast dns_rdatatype_cname" using a by auto
  with tc a have r: "find_result node T c (fs_search st') = DNS_R_CNAME"
    by (simp add: find_result_def)
  show "\<exists>out' search'.
           zone_find_found db search node T is_wild args out =
             Inr (Finished DNS_R_CNAME out' search') \<and>
           (rdataset_given args \<longrightarrow> out_rdataset out' = Some c)"
    using scan f e r a by (simp add: zone_find_found_def Let_def bindrdataset_def)
next
  assume k: "T = dns_rdatatype_key \<or> T = dns_rdatatype_nsec"
  then have nck: "\<not> find_cname_ok search T" by (auto simp: find_cname_ok_def)
  from k key_nsec_not_any have na: "T \<noteq> dns_rdatatype_any" by auto
  show sc: "\<forall>st f. zone_find_scan db search node T = Inr (Scan_end st) \<and> fs_found st = Some f \<longrightarrow>
                htype f = ucast T"
  proof (intro allI impI)
    fix st f assume "zone_find_scan db search node T = Inr (Scan_end st) \<and> fs_found st = Some f"
    with zone_find_scan_inv [of db search node T st] nck na show "htype f = ucast T"
      by (simp add: found_ok_def)
  qed
  show "\<forall>r out' search'.
           zone_find_found db search node T is_wild args out = Inr (Finished r out' search') \<longrightarrow>
             r \<noteq> DNS_R_CNAME"
    using zone_find_found_not_cname sc by blast
qed

theorem zone_find_cname_substitution_witness:
  "(\<exists>out' search'. zone_find_found ex_zone ex_search 4 dns_rdatatype_a False ex_args ex_out =
      Inr (Finished DNS_R_CNAME out' search') \<and> out_rdataset out' = Some (ex_hdr 4 5 40)) \<and>
   (\<exists>out' search'. zone_find_found ex_zone ex_search 4 dns_rdatatype_key False ex_args ex_out =
      Inr (Finished DNS_R_NXRRSET out' search')) \<and>
   DNS_R_NXRRSET \<noteq> DNS_R_CNAME"
proof -
  note defs = zone_find_scan_def find_header_def find_match_def find_maybe_zonecut_def
    find_cname_ok_def Let_def ex_simps
  have z: "zonecut ex_search = None" by (simp add: ex_search_def)
  have p: "dns_rdatatype_a \<noteq> dns_rdatatype_cname \<and> dns_rdatatype_a \<noteq> dns_rdatatype_any \<and>
      dns_rdatatype_a \<noteq> dns_rdatatype_key \<and> dns_rdatatype_a \<noteq> dns_rdatatype_nsec \<and>
      find_at_serial (s_serial ex_search) (ucast dns_rdatatype_cname) (data (nodes ex_zone 4)) =
        Some (ex_hdr 4 5 40) \<and>
      find_at_serial (s_serial ex_search) (ucast dns_rdatatype_a) (data (nodes ex_zone 4)) = None \<and>
      \<not> (find_maybe_zonecut ex_zone ex_search 4 dns_rdatatype_a \<and>
         find_at_serial (s_serial ex_search) (ucast dns_rdatatype_ns) (data (nodes ex_zone 4)) \<noteq> None \<and>
         DNS_DBFIND_GLUEOK \<notin> s_options ex_search) \<and>
      (\<forall>h. find_at_serial (s_serial ex_search) (ucast dns_rdatatype_nsec3) (data (nodes ex_zone 4)) = Some h
           \<longrightarrow> matchparams h ex_search = Inr True)"
    by (simp add: find_at_serial_def stack_type_def find_maybe_zonecut_def ex_simps)
  from zone_find_cname_substitution [OF z ex_zone_chain_ok, where node = 4 and T = dns_rdatatype_a
      and c = "ex_hdr 4 5 40" and is_wild = False and args = ex_args and out = ex_out,
      THEN conjunct1, THEN mp, OF p]
  have 1: "\<exists>out' search'. zone_find_found ex_zone ex_search 4 dns_rdatatype_a False ex_args ex_out =
      Inr (Finished DNS_R_CNAME out' search') \<and> out_rdataset out' = Some (ex_hdr 4 5 40)"
    by (simp add: ex_args_def)
  have k: "\<exists>out' search'. zone_find_found ex_zone ex_search 4 dns_rdatatype_key False ex_args ex_out =
      Inr (Finished DNS_R_NXRRSET out' search')"
    by (simp add: zone_find_found_def defs)
  then obtain out' search' where
    k': "zone_find_found ex_zone ex_search 4 dns_rdatatype_key False ex_args ex_out =
      Inr (Finished DNS_R_NXRRSET out' search')"
    by (elim exE)
  from zone_find_cname_substitution [OF z ex_zone_chain_ok, where node = 4
      and T = dns_rdatatype_key and is_wild = False and args = ex_args and out = ex_out,
      THEN conjunct2] k'
  have 2: "DNS_R_NXRRSET \<noteq> DNS_R_CNAME" by blast
  from 1 k 2 show ?thesis by (intro conjI)
qed

text \<open>
  C6. The claim gives \<open>DNS_R_GLUE\<close> in every case other than the two it names; a CNAME
  found in place of the type asked comes first. At \<open>child.example.\<close>, with NS and
  CNAME, searched for A with \<open>GLUEOK\<close>, the node is recorded as the zonecut, the CNAME
  header is found, and the result is \<open>DNS_R_CNAME\<close>.
\<close>

theorem zone_find_cname_at_zonecut:
  "(\<exists>st. zone_find_scan ex_zone ex_search_glue 2 dns_rdatatype_a = Inr (Scan_end st) \<and>
         fs_found st = Some (ex_hdr 2 5 21) \<and> zonecut (fs_search st) = Some 2) \<and>
   (\<exists>out' search'. zone_find_found ex_zone ex_search_glue 2 dns_rdatatype_a False ex_args ex_out =
      Inr (Finished DNS_R_CNAME out' search'))"
  by (simp add: zone_find_found_def zone_find_scan_def find_header_def find_match_def
      find_maybe_zonecut_def find_cname_ok_def find_result_def Let_def ex_simps)

text \<open>
  C6, amended. When the scan ends with a header found and a zonecut recorded, and the
  header is not a CNAME found in place of another type asked (that case returns
  \<open>DNS_R_CNAME\<close>): if the node is the zonecut node and the type asked is NSEC, NSEC3 or
  KEY the result is \<open>ISC_R_SUCCESS\<close>; if the type asked is ANY at the zonecut node the
  result is \<open>DNS_R_ZONECUT\<close>; in every other case the result is \<open>DNS_R_GLUE\<close>.
\<close>

theorem zone_find_under_zonecut:
  assumes "zone_find_scan db search node T = Inr (Scan_end st)"
    and "fs_found st = Some f"
    and "zonecut (fs_search st) = Some z"
    and "\<not> (ucast T \<noteq> htype f \<and> T \<noteq> dns_rdatatype_any \<and> htype f = ucast dns_rdatatype_cname)"
  shows "\<exists>out' search'.
           zone_find_found db search node T is_wild args out =
             Inr (Finished
                    (if z = node
                     then (if T = dns_rdatatype_nsec \<or> T = dns_rdatatype_nsec3 \<or> T = dns_rdatatype_key
                           then ISC_R_SUCCESS
                           else if T = dns_rdatatype_any then DNS_R_ZONECUT
                           else DNS_R_GLUE)
                     else DNS_R_GLUE)
                    out' search')"
proof -
  from zone_find_scan_inv [OF assms(1)] assms(2) have e: "\<not> fs_empty_node st" by simp
  have r: "find_result node T f (fs_search st) =
             (if z = node
              then (if T = dns_rdatatype_nsec \<or> T = dns_rdatatype_nsec3 \<or> T = dns_rdatatype_key
                    then ISC_R_SUCCESS
                    else if T = dns_rdatatype_any then DNS_R_ZONECUT
                    else DNS_R_GLUE)
              else DNS_R_GLUE)"
    using assms(3,4) by (auto simp: find_result_def)
  show ?thesis
    using assms(1,2) e by (simp add: zone_find_found_def Let_def r)
qed

theorem zone_find_under_zonecut_witness:
  "(\<exists>out' search'. zone_find_found ex_zone ex_search_glue 2 dns_rdatatype_key False ex_args ex_out =
      Inr (Finished ISC_R_SUCCESS out' search')) \<and>
   (\<exists>out' search'. zone_find_found ex_zone ex_search_glue 2 dns_rdatatype_any False ex_args ex_out =
      Inr (Finished DNS_R_ZONECUT out' search')) \<and>
   (\<exists>out' search'. zone_find_found ex_zone ex_search_glue 2 dns_rdatatype_cname False ex_args ex_out =
      Inr (Finished DNS_R_GLUE out' search')) \<and>
   (\<exists>out' search'. zone_find_found ex_zone (snd (check_zonecut ex_zone 2 ex_search_glue)) 5
        dns_rdatatype_a False ex_args ex_out =
      Inr (Finished DNS_R_GLUE out' search'))"
proof -
  note defs = zone_find_scan_def find_header_def find_match_def find_maybe_zonecut_def
    find_cname_ok_def Let_def ex_simps
  have k: "\<exists>st f. zone_find_scan ex_zone ex_search_glue 2 dns_rdatatype_key = Inr (Scan_end st) \<and>
        fs_found st = Some f \<and> zonecut (fs_search st) = Some 2 \<and>
        \<not> (ucast dns_rdatatype_key \<noteq> htype f \<and> dns_rdatatype_key \<noteq> dns_rdatatype_any \<and>
           htype f = ucast dns_rdatatype_cname)"
    by (simp add: defs)
  have a: "\<exists>st f. zone_find_scan ex_zone ex_search_glue 2 dns_rdatatype_any = Inr (Scan_end st) \<and>
        fs_found st = Some f \<and> zonecut (fs_search st) = Some 2 \<and>
        \<not> (ucast dns_rdatatype_any \<noteq> htype f \<and> dns_rdatatype_any \<noteq> dns_rdatatype_any \<and>
           htype f = ucast dns_rdatatype_cname)"
    by (simp add: defs)
  have n: "\<exists>st f. zone_find_scan ex_zone ex_search_glue 2 dns_rdatatype_cname = Inr (Scan_end st) \<and>
        fs_found st = Some f \<and> zonecut (fs_search st) = Some 2 \<and>
        \<not> (ucast dns_rdatatype_cname \<noteq> htype f \<and> dns_rdatatype_cname \<noteq> dns_rdatatype_any \<and>
           htype f = ucast dns_rdatatype_cname)"
    by (simp add: defs)
  have b: "\<exists>st f. zone_find_scan ex_zone (snd (check_zonecut ex_zone 2 ex_search_glue)) 5
             dns_rdatatype_a = Inr (Scan_end st) \<and>
        fs_found st = Some f \<and> zonecut (fs_search st) = Some 2 \<and>
        \<not> (ucast dns_rdatatype_a \<noteq> htype f \<and> dns_rdatatype_a \<noteq> dns_rdatatype_any \<and>
           htype f = ucast dns_rdatatype_cname)"
    by (simp add: defs check_zonecut_def)
  have t: "dns_rdatatype_key \<noteq> dns_rdatatype_any" "dns_rdatatype_cname \<noteq> dns_rdatatype_nsec"
    "dns_rdatatype_cname \<noteq> dns_rdatatype_nsec3" "dns_rdatatype_cname \<noteq> dns_rdatatype_key"
    "dns_rdatatype_cname \<noteq> dns_rdatatype_any" "dns_rdatatype_any \<noteq> dns_rdatatype_nsec"
    "dns_rdatatype_any \<noteq> dns_rdatatype_nsec3" "dns_rdatatype_any \<noteq> dns_rdatatype_key"
    by (simp_all add: ex_simps)
  from k obtain st f where
    "zone_find_scan ex_zone ex_search_glue 2 dns_rdatatype_key = Inr (Scan_end st)"
    "fs_found st = Some f" "zonecut (fs_search st) = Some 2"
    "\<not> (ucast dns_rdatatype_key \<noteq> htype f \<and> dns_rdatatype_key \<noteq> dns_rdatatype_any \<and>
           htype f = ucast dns_rdatatype_cname)"
    by (elim exE conjE)
  from zone_find_under_zonecut [OF this, of False ex_args ex_out]
  have 1: "\<exists>out' search'. zone_find_found ex_zone ex_search_glue 2 dns_rdatatype_key False ex_args ex_out =
      Inr (Finished ISC_R_SUCCESS out' search')"
    by simp
  from a obtain st f where
    "zone_find_scan ex_zone ex_search_glue 2 dns_rdatatype_any = Inr (Scan_end st)"
    "fs_found st = Some f" "zonecut (fs_search st) = Some 2"
    "\<not> (ucast dns_rdatatype_any \<noteq> htype f \<and> dns_rdatatype_any \<noteq> dns_rdatatype_any \<and>
           htype f = ucast dns_rdatatype_cname)"
    by (elim exE conjE)
  from zone_find_under_zonecut [OF this, of False ex_args ex_out] t
  have 2: "\<exists>out' search'. zone_find_found ex_zone ex_search_glue 2 dns_rdatatype_any False ex_args ex_out =
      Inr (Finished DNS_R_ZONECUT out' search')"
    by simp
  from n obtain st f where
    "zone_find_scan ex_zone ex_search_glue 2 dns_rdatatype_cname = Inr (Scan_end st)"
    "fs_found st = Some f" "zonecut (fs_search st) = Some 2"
    "\<not> (ucast dns_rdatatype_cname \<noteq> htype f \<and> dns_rdatatype_cname \<noteq> dns_rdatatype_any \<and>
           htype f = ucast dns_rdatatype_cname)"
    by (elim exE conjE)
  from zone_find_under_zonecut [OF this, of False ex_args ex_out] t
  have 3: "\<exists>out' search'. zone_find_found ex_zone ex_search_glue 2 dns_rdatatype_cname False ex_args ex_out =
      Inr (Finished DNS_R_GLUE out' search')"
    by simp
  from b obtain st f where
    "zone_find_scan ex_zone (snd (check_zonecut ex_zone 2 ex_search_glue)) 5 dns_rdatatype_a =
       Inr (Scan_end st)"
    "fs_found st = Some f" "zonecut (fs_search st) = Some 2"
    "\<not> (ucast dns_rdatatype_a \<noteq> htype f \<and> dns_rdatatype_a \<noteq> dns_rdatatype_any \<and>
           htype f = ucast dns_rdatatype_cname)"
    by (elim exE conjE)
  from zone_find_under_zonecut [OF this, of False ex_args ex_out]
  have 4: "\<exists>out' search'. zone_find_found ex_zone (snd (check_zonecut ex_zone 2 ex_search_glue)) 5
        dns_rdatatype_a False ex_args ex_out =
      Inr (Finished DNS_R_GLUE out' search')"
    by simp
  from 1 2 3 4 show ?thesis by (intro conjI)
qed

text \<open>
  C7. For a rdataset of the class of the database (the origin being a name): an SOA whose
  owner is not the origin is rejected with \<open>DNS_R_NOTZONETOP\<close>, the database
  untouched; an NS at a wildcard owner is rejected with \<open>DNS_R_INVALIDNS\<close>, after
  \<open>dns__qpzone_addwildcards\<close> has run, which adds no header to any node; an NSEC3 at a
  wildcard owner is rejected with \<open>DNS_R_INVALIDNSEC3\<close>, the database untouched.
\<close>

theorem loading_addrdataset_rejections:
  assumes "rd_rdclass rdataset = rdclass db" and "origin db \<noteq> []"
  shows "(rd_type rdataset = dns_rdatatype_soa \<and> \<not> dns_name_equal nm (origin db) \<longrightarrow>
            loading_addrdataset x db now nm rdataset = Inr (DNS_R_NOTZONETOP, db)) \<and>
         (dns_name_iswildcard nm \<and> rd_type rdataset = dns_rdatatype_ns \<longrightarrow>
            (\<exists>db'. loading_addrdataset x db now nm rdataset = Inr (DNS_R_INVALIDNS, db') \<and>
                   no_header_added db db')) \<and>
         (dns_name_iswildcard nm \<and> rd_type rdataset = dns_rdatatype_nsec3 \<longrightarrow>
            loading_addrdataset x db now nm rdataset = Inr (DNS_R_INVALIDNSEC3, db))"
proof (intro conjI impI)
  assume "rd_type rdataset = dns_rdatatype_soa \<and> \<not> dns_name_equal nm (origin db)"
  then show "loading_addrdataset x db now nm rdataset = Inr (DNS_R_NOTZONETOP, db)"
    using assms(1) by (simp add: loading_addrdataset_def)
next
  assume a: "dns_name_iswildcard nm \<and> rd_type rdataset = dns_rdatatype_nsec3"
  have "dns_rdatatype_nsec3 \<noteq> dns_rdatatype_soa" "dns_rdatatype_nsec3 \<noteq> dns_rdatatype_ns"
    by (simp_all add: dns_rdatatype_nsec3_def dns_rdatatype_soa_def dns_rdatatype_ns_def)
  then show "loading_addrdataset x db now nm rdataset = Inr (DNS_R_INVALIDNSEC3, db)"
    using assms(1) a by (simp add: loading_addrdataset_def)
next
  assume a: "dns_name_iswildcard nm \<and> rd_type rdataset = dns_rdatatype_ns"
  have d: "dns_rdatatype_ns \<noteq> dns_rdatatype_soa" "dns_rdatatype_ns \<noteq> dns_rdatatype_nsec3"
    by (simp_all add: dns_rdatatype_nsec3_def dns_rdatatype_soa_def dns_rdatatype_ns_def)
  have "2 \<le> length (origin db) + 1" using assms(2) by (cases "origin db") simp_all
  from addwildcards_loop_ok [OF this refl]
  obtain db1 where w: "dns__qpzone_addwildcards x db nm = Inr (ISC_R_SUCCESS, db1)"
    and n: "no_header_added db db1"
    unfolding dns__qpzone_addwildcards_def dns_name_countlabels_def Let_def by blast
  show "\<exists>db'. loading_addrdataset x db now nm rdataset = Inr (DNS_R_INVALIDNS, db') \<and>
              no_header_added db db'"
  proof (cases "rd_covers rdataset = dns_rdatatype_nsec3")
    case True
    then show ?thesis
      using assms(1) a d by (simp add: loading_addrdataset_def no_header_added_refl)
  next
    case False
    then show ?thesis
      using assms(1) a d w n by (simp add: loading_addrdataset_def)
  qed
qed

theorem loading_addrdataset_rejections_witness:
  "loading_addrdataset ex_externals ex_zone 0 [''www'', ''example'', []]
     (ex_rdataset dns_rdatatype_soa) = Inr (DNS_R_NOTZONETOP, ex_zone) \<and>
   (\<exists>db'. loading_addrdataset ex_externals ex_zone 0 [''*'', ''*'', ''example'', []]
            (ex_rdataset dns_rdatatype_ns) = Inr (DNS_R_INVALIDNS, db') \<and>
          next_node db' = 7 \<and> data (nodes db' 6) = [] \<and>
          data (nodes db' 2) = data (nodes ex_zone 2)) \<and>
   loading_addrdataset ex_externals ex_zone 0 [''*'', ''example'', []]
     (ex_rdataset dns_rdatatype_nsec3) = Inr (DNS_R_INVALIDNSEC3, ex_zone)"
proof -
  have c: "rd_rdclass (ex_rdataset t) = rdclass ex_zone" for t
    by (simp add: ex_rdataset_def ex_zone_def ex_db_def)
  have o: "origin ex_zone \<noteq> []" by (simp add: ex_zone_def ex_db_def)
  have 1: "loading_addrdataset ex_externals ex_zone 0 [''www'', ''example'', []]
     (ex_rdataset dns_rdatatype_soa) = Inr (DNS_R_NOTZONETOP, ex_zone)"
    using loading_addrdataset_rejections [where x = ex_externals and now = 0 and db = ex_zone
        and nm = "[''www'', ''example'', []]" and rdataset = "ex_rdataset dns_rdatatype_soa", OF c o]
    by (simp add: ex_rdataset_def dns_name_equal_def ex_zone_def ex_db_def)
  have 3: "loading_addrdataset ex_externals ex_zone 0 [''*'', ''example'', []]
     (ex_rdataset dns_rdatatype_nsec3) = Inr (DNS_R_INVALIDNSEC3, ex_zone)"
    using loading_addrdataset_rejections [where x = ex_externals and now = 0 and db = ex_zone
        and nm = "[''*'', ''example'', []]" and rdataset = "ex_rdataset dns_rdatatype_nsec3", OF c o]
    by (simp add: ex_rdataset_def dns_name_iswildcard_def)
  have "\<exists>db'. loading_addrdataset ex_externals ex_zone 0 [''*'', ''*'', ''example'', []]
            (ex_rdataset dns_rdatatype_ns) = Inr (DNS_R_INVALIDNS, db') \<and>
          no_header_added ex_zone db'"
    using loading_addrdataset_rejections [where x = ex_externals and now = 0 and db = ex_zone
        and nm = "[''*'', ''*'', ''example'', []]" and rdataset = "ex_rdataset dns_rdatatype_ns", OF c o]
    by (simp add: ex_rdataset_def dns_name_iswildcard_def)
  then obtain db' where l: "loading_addrdataset ex_externals ex_zone 0 [''*'', ''*'', ''example'', []]
            (ex_rdataset dns_rdatatype_ns) = Inr (DNS_R_INVALIDNS, db')"
    and n: "no_header_added ex_zone db'" by (elim exE conjE)
  have nn: "next_node db' = 7" using ex_load_ns l by simp
  have z: "next_node ex_zone = 6" by (simp add: ex_zone_def)
  have d: "data (nodes db' p) = (if 6 \<le> p \<and> p < 7 then [] else data (nodes ex_zone p))" for p
    using n nn z by (simp add: no_header_added_def)
  have 2: "\<exists>db'. loading_addrdataset ex_externals ex_zone 0 [''*'', ''*'', ''example'', []]
            (ex_rdataset dns_rdatatype_ns) = Inr (DNS_R_INVALIDNS, db') \<and>
          next_node db' = 7 \<and> data (nodes db' 6) = [] \<and>
          data (nodes db' 2) = data (nodes ex_zone 2)"
    using l nn d [of 6] d [of 2] by simp
  show ?thesis using 1 2 3 by (intro conjI)
qed

text \<open>
  C9. For an NS rdataset whose header has no glue cached, in a fixed version: the first
  \<open>addglue\<close> leaves a value other than \<open>NULL\<close> in \<open>header->glue_list\<close>, which
  is, when no other thread published in between, the list that \<open>newglue\<close> returned or
  \<open>(void *)-1\<close> when it returned none; every call on the header so left returns the
  header as it is and, for the same message, the message of the first call, whatever
  \<open>newglue\<close> would return now; and when \<open>(void *)-1\<close> is cached the message is
  returned as it was given.
\<close>

theorem addglue_cached:
  assumes "sr_type rdataset = dns_rdatatype_ns"
    and "dbid db = sr_db rdataset" and "dbid db = vqpdb version"
    and "\<not> is_cache db" and "\<not> is_stub db"
    and "glue_list (sr_header rdataset) = Glue_NULL"
  shows "\<exists>header1 msg1 counted1 pushed1.
           addglue g seen db version rdataset msg =
             Inr (ISC_R_SUCCESS, header1, msg1, counted1, pushed1) \<and>
           glue_list header1 \<noteq> Glue_NULL \<and>
           (seen = Glue_NULL \<longrightarrow>
              glue_list header1 = (if g = [] then Glue_minus1 else Glue_ptr g)) \<and>
           (\<forall>g' seen'. \<exists>counted2.
              addglue g' seen' db version (rdataset\<lparr>sr_header := header1\<rparr>) msg =
                Inr (ISC_R_SUCCESS, header1, msg1, counted2, False)) \<and>
           (glue_list header1 = Glue_minus1 \<longrightarrow> msg1 = msg)"
proof (cases "seen = Glue_NULL")
  case True
  show ?thesis
  proof (cases g)
    case Nil
    then show ?thesis
      using assms True by (auto simp: addglue_def Glue_NULL_def Let_def)
  next
    case (Cons ge rest)
    then show ?thesis
      using assms True by (auto simp: addglue_def Glue_NULL_def Let_def)
  qed
next
  case False
  then show ?thesis
    using assms by (cases seen) (auto simp: addglue_def Glue_NULL_def Let_def)
qed

theorem addglue_cached_witness:
  "(\<exists>header1 counted1 pushed1.
      addglue ex_glue Glue_NULL ex_zone ex_version ex_ns_rdataset ex_msg =
        Inr (ISC_R_SUCCESS, header1,
             ([''ns'', ''child'', ''example'', []],
              [\<lparr>gr_type = dns_rdatatype_a, gr_required = True, gr_rdata = [192, 0, 2, 1]\<rparr>]) # ex_msg,
             counted1, pushed1) \<and>
      glue_list header1 = Glue_ptr ex_glue \<and>
      (\<exists>counted2.
         addglue [] Glue_NULL ex_zone ex_version (ex_ns_rdataset\<lparr>sr_header := header1\<rparr>) ex_msg =
           Inr (ISC_R_SUCCESS, header1,
                ([''ns'', ''child'', ''example'', []],
                 [\<lparr>gr_type = dns_rdatatype_a, gr_required = True, gr_rdata = [192, 0, 2, 1]\<rparr>]) # ex_msg,
                counted2, False))) \<and>
   (\<exists>header1 counted1 pushed1.
      addglue [] Glue_NULL ex_zone ex_version ex_ns_rdataset ex_msg =
        Inr (ISC_R_SUCCESS, header1, ex_msg, counted1, pushed1) \<and>
      glue_list header1 = Glue_minus1 \<and>
      (\<exists>counted2.
         addglue ex_glue Glue_NULL ex_zone ex_version (ex_ns_rdataset\<lparr>sr_header := header1\<rparr>) ex_msg =
           Inr (ISC_R_SUCCESS, header1, ex_msg, counted2, False)))"
proof -
  have h: "sr_type ex_ns_rdataset = dns_rdatatype_ns" "dbid ex_zone = sr_db ex_ns_rdataset"
    "dbid ex_zone = vqpdb ex_version" "\<not> is_cache ex_zone" "\<not> is_stub ex_zone"
    "glue_list (sr_header ex_ns_rdataset) = Glue_NULL"
    by (simp_all add: ex_ns_rdataset_def ex_zone_def ex_db_def ex_version_def ex_hdr_def
        mk_header_def)
  have m: "addglue_to_message ex_glue ex_msg =
      ([''ns'', ''child'', ''example'', []],
       [\<lparr>gr_type = dns_rdatatype_a, gr_required = True, gr_rdata = [192, 0, 2, 1]\<rparr>]) # ex_msg"
    by (simp add: ex_glue_def IS_REQUIRED_GLUE_def)
  have e1: "\<exists>header1 counted1 pushed1.
      addglue ex_glue Glue_NULL ex_zone ex_version ex_ns_rdataset ex_msg =
        Inr (ISC_R_SUCCESS, header1, addglue_to_message ex_glue ex_msg, counted1, pushed1) \<and>
      glue_list header1 = Glue_ptr ex_glue"
    using h by (auto simp: addglue_def Glue_NULL_def Let_def ex_glue_def)
  have e2: "\<exists>header1 counted1 pushed1.
      addglue [] Glue_NULL ex_zone ex_version ex_ns_rdataset ex_msg =
        Inr (ISC_R_SUCCESS, header1, ex_msg, counted1, pushed1) \<and>
      glue_list header1 = Glue_minus1"
    using h by (auto simp: addglue_def Glue_NULL_def Let_def)
  have 1: ?thesis if
    a: "\<exists>header1 msg1 counted1 pushed1.
           addglue ex_glue Glue_NULL ex_zone ex_version ex_ns_rdataset ex_msg =
             Inr (ISC_R_SUCCESS, header1, msg1, counted1, pushed1) \<and>
           glue_list header1 \<noteq> Glue_NULL \<and>
           (Glue_NULL = Glue_NULL \<longrightarrow>
              glue_list header1 = (if ex_glue = [] then Glue_minus1 else Glue_ptr ex_glue)) \<and>
           (\<forall>g' seen'. \<exists>counted2.
              addglue g' seen' ex_zone ex_version (ex_ns_rdataset\<lparr>sr_header := header1\<rparr>) ex_msg =
                Inr (ISC_R_SUCCESS, header1, msg1, counted2, False)) \<and>
           (glue_list header1 = Glue_minus1 \<longrightarrow> msg1 = ex_msg)"
    and b: "\<exists>header1 msg1 counted1 pushed1.
           addglue [] Glue_NULL ex_zone ex_version ex_ns_rdataset ex_msg =
             Inr (ISC_R_SUCCESS, header1, msg1, counted1, pushed1) \<and>
           glue_list header1 \<noteq> Glue_NULL \<and>
           (Glue_NULL = Glue_NULL \<longrightarrow>
              glue_list header1 = (if [] = ([] :: dns_glue list) then Glue_minus1 else Glue_ptr [])) \<and>
           (\<forall>g' seen'. \<exists>counted2.
              addglue g' seen' ex_zone ex_version (ex_ns_rdataset\<lparr>sr_header := header1\<rparr>) ex_msg =
                Inr (ISC_R_SUCCESS, header1, msg1, counted2, False)) \<and>
           (glue_list header1 = Glue_minus1 \<longrightarrow> msg1 = ex_msg)"
  proof -
    from a obtain ha ma ca pa where
      a1: "addglue ex_glue Glue_NULL ex_zone ex_version ex_ns_rdataset ex_msg =
             Inr (ISC_R_SUCCESS, ha, ma, ca, pa)"
      and a2: "\<forall>g' seen'. \<exists>counted2.
              addglue g' seen' ex_zone ex_version (ex_ns_rdataset\<lparr>sr_header := ha\<rparr>) ex_msg =
                Inr (ISC_R_SUCCESS, ha, ma, counted2, False)"
      by (elim exE conjE)
    from b obtain hb mb cb pb where
      b1: "addglue [] Glue_NULL ex_zone ex_version ex_ns_rdataset ex_msg =
             Inr (ISC_R_SUCCESS, hb, mb, cb, pb)"
      and b2: "\<forall>g' seen'. \<exists>counted2.
              addglue g' seen' ex_zone ex_version (ex_ns_rdataset\<lparr>sr_header := hb\<rparr>) ex_msg =
                Inr (ISC_R_SUCCESS, hb, mb, counted2, False)"
      by (elim exE conjE)
    from e1 a1 have a3: "ma = addglue_to_message ex_glue ex_msg" "glue_list ha = Glue_ptr ex_glue"
      by auto
    from e2 b1 have b3: "mb = ex_msg" "glue_list hb = Glue_minus1" by auto
    from a2 obtain c2 where a4:
      "addglue [] Glue_NULL ex_zone ex_version (ex_ns_rdataset\<lparr>sr_header := ha\<rparr>) ex_msg =
         Inr (ISC_R_SUCCESS, ha, ma, c2, False)" by blast
    from b2 obtain c3 where b4:
      "addglue ex_glue Glue_NULL ex_zone ex_version (ex_ns_rdataset\<lparr>sr_header := hb\<rparr>) ex_msg =
         Inr (ISC_R_SUCCESS, hb, mb, c3, False)" by blast
    show ?thesis
      apply (rule conjI)
       apply (rule exI [of _ ha], rule exI [of _ ca], rule exI [of _ pa])
      using a1 a3 a4 m apply simp
      apply (rule exI [of _ hb], rule exI [of _ cb], rule exI [of _ pb])
      using b1 b3 b4 apply simp
      done
  qed
  show ?thesis
    by (rule 1 [OF addglue_cached [where g = ex_glue and seen = Glue_NULL and msg = ex_msg, OF h]
          addglue_cached [where g = "[]" and seen = Glue_NULL and msg = ex_msg, OF h]])
qed



end
